theory Spec2Isabelle
  imports Main "HOL-Library.Word" "HOL-Library.Sublist"
begin

section \<open>The AT command manager of at.c\<close>

text \<open>
  The development embeds \<^verbatim>\<open>src/src/at.c\<close> (with the types of \<^verbatim>\<open>src/inc/at.h\<close>)
  function by function. The static context \<^verbatim>\<open>at_ctx\<close> is an explicit record that every
  operation takes and returns. The fixed arrays of the context are functions from the
  index; only the indices below the array size are ever read or written, and an access the
  C code would make outside an array is a \<open>fault\<close> result. Function pointers stored in a
  command descriptor are HOL functions on the context. The bytes handed to
  \<^verbatim>\<open>AT_HW_API_write\<close> are returned, call by call, next to the result of each operation.
  Names of the C file that start with an underscore lose it.
\<close>

subsection \<open>Macros and enumerations\<close>

abbreviation AT_BUFFER_SIZE :: nat where "AT_BUFFER_SIZE \<equiv> 128"
abbreviation AT_COMMAND_LIST_SIZE :: nat where "AT_COMMAND_LIST_SIZE \<equiv> 64"
abbreviation AT_HEADER :: string where "AT_HEADER \<equiv> ''AT''"
abbreviation NUL :: char where "NUL \<equiv> CHR 0x00"
abbreviation AT_COMMAND_MARKER_END :: char where "AT_COMMAND_MARKER_END \<equiv> CHR 0x0D"
abbreviation AT_COMMAND_MARKER_EXECUTION :: char where "AT_COMMAND_MARKER_EXECUTION \<equiv> NUL"
abbreviation AT_COMMAND_MARKER_READ_HELP :: char where "AT_COMMAND_MARKER_READ_HELP \<equiv> CHR ''?''"
abbreviation AT_COMMAND_MARKER_WRITE :: char where "AT_COMMAND_MARKER_WRITE \<equiv> CHR ''=''"
abbreviation AT_COMMAND_HEADER_BASIC :: char where "AT_COMMAND_HEADER_BASIC \<equiv> NUL"
abbreviation AT_COMMAND_HEADER_EXTENDED :: char where "AT_COMMAND_HEADER_EXTENDED \<equiv> CHR ''$''"
abbreviation AT_COMMAND_HEADER_DEBUG :: char where "AT_COMMAND_HEADER_DEBUG \<equiv> CHR ''!''"
abbreviation AT_COMMAND_HEADER_HELP :: string where "AT_COMMAND_HEADER_HELP \<equiv> ''        -> ''"
abbreviation AT_COMMAND_PARAMETER_SEPARATOR :: char where "AT_COMMAND_PARAMETER_SEPARATOR \<equiv> CHR '',''"
abbreviation AT_COMMAND_PARAMETER_MAX_NUMBER :: nat where "AT_COMMAND_PARAMETER_MAX_NUMBER \<equiv> 10"
abbreviation AT_REPLY_END :: string where "AT_REPLY_END \<equiv> [CHR 0x0D, CHR 0x0A]"

datatype AT_status_t =
    AT_SUCCESS
  | AT_ERROR_INTERNAL_COMMAND_PARSING
  | AT_ERROR_INTERNAL_COMMAND_NOT_FOUND
  | AT_ERROR_INTERNAL_COMMAND_MARKER_NOT_DEFINED
  | AT_ERROR_INTERNAL_COMMAND_EXECUTION_NOT_DEFINED
  | AT_ERROR_INTERNAL_COMMAND_WRITE_NOT_DEFINED
  | AT_ERROR_INTERNAL_COMMAND_READ_NOT_DEFINED
  | AT_ERROR_EXTERNAL_COMMAND_BAD_PARAMETER_NUMBER
  | AT_ERROR_EXTERNAL_COMMAND_BAD_PARAMETER_PARSING
  | AT_ERROR_EXTERNAL_COMMAND_BAD_PARAMETER_VALUE
  | AT_ERROR_EXTERNAL_COMMAND_CORE_ERROR
  | AT_ERROR_NULL_PARAMETER
  | AT_ERROR_WRITE_CALLBACK_WITHOUT_PARAMETER
  | AT_ERROR_COMMAND_TYPE
  | AT_ERROR_COMMAND_ALREADY_REGISTERED
  | AT_ERROR_COMMANDS_LIST_FULL
  | AT_ERROR_COMMAND_NOT_REGISTERED
  | AT_ERROR_TX_BUFFER_SIZE
  | AT_ERROR_AT_HW_API
  | AT_ERROR_LAST

text \<open>The integer value of each enumerator, as \<^verbatim>\<open>"%d"\<close> prints it.\<close>

fun status_value :: "AT_status_t \<Rightarrow> nat" where
  "status_value AT_SUCCESS = 0"
| "status_value AT_ERROR_INTERNAL_COMMAND_PARSING = 1"
| "status_value AT_ERROR_INTERNAL_COMMAND_NOT_FOUND = 2"
| "status_value AT_ERROR_INTERNAL_COMMAND_MARKER_NOT_DEFINED = 3"
| "status_value AT_ERROR_INTERNAL_COMMAND_EXECUTION_NOT_DEFINED = 4"
| "status_value AT_ERROR_INTERNAL_COMMAND_WRITE_NOT_DEFINED = 5"
| "status_value AT_ERROR_INTERNAL_COMMAND_READ_NOT_DEFINED = 6"
| "status_value AT_ERROR_EXTERNAL_COMMAND_BAD_PARAMETER_NUMBER = 7"
| "status_value AT_ERROR_EXTERNAL_COMMAND_BAD_PARAMETER_PARSING = 8"
| "status_value AT_ERROR_EXTERNAL_COMMAND_BAD_PARAMETER_VALUE = 9"
| "status_value AT_ERROR_EXTERNAL_COMMAND_CORE_ERROR = 10"
| "status_value AT_ERROR_NULL_PARAMETER = 11"
| "status_value AT_ERROR_WRITE_CALLBACK_WITHOUT_PARAMETER = 12"
| "status_value AT_ERROR_COMMAND_TYPE = 13"
| "status_value AT_ERROR_COMMAND_ALREADY_REGISTERED = 14"
| "status_value AT_ERROR_COMMANDS_LIST_FULL = 15"
| "status_value AT_ERROR_COMMAND_NOT_REGISTERED = 16"
| "status_value AT_ERROR_TX_BUFFER_SIZE = 17"
| "status_value AT_ERROR_AT_HW_API = 18"
| "status_value AT_ERROR_LAST = 19"

datatype AT_command_type_t =
    AT_COMMAND_TYPE_BASIC
  | AT_COMMAND_TYPE_EXTENDED
  | AT_COMMAND_TYPE_DEBUG
  | AT_COMMAND_TYPE_LAST

fun type_value :: "AT_command_type_t \<Rightarrow> nat" where
  "type_value AT_COMMAND_TYPE_BASIC = 0"
| "type_value AT_COMMAND_TYPE_EXTENDED = 1"
| "type_value AT_COMMAND_TYPE_DEBUG = 2"
| "type_value AT_COMMAND_TYPE_LAST = 3"

text \<open>
  What the C code does where the language gives it no meaning: a read through a null
  pointer, an access outside an array, a conversion \<^verbatim>\<open>sscanf\<close> cannot represent.
\<close>

datatype fault = NullDereference | OutOfBounds | UndefinedConversion

subsection \<open>Structures\<close>

type_synonym int32 = "32 word"

text \<open>One element per call of \<^verbatim>\<open>AT_HW_API_write\<close>: the bytes of that call.\<close>

type_synonym tx = "string list"

text \<open>
  A \<^verbatim>\<open>const AT_command_t *\<close>: the address of one of the three static descriptors of
  at.c, or of a descriptor owned by the application. The null pointer is \<open>None\<close>.
\<close>

datatype cmd_ref = AT_COMMAND_ECHO_ref | AT_COMMAND_VERBOSE_ref | AT_COMMAND_QUIET_ref
  | User_command nat

record AT_flags_t =
  process :: bool
  pending :: bool
  quiet :: bool
  verbose :: bool
  echo :: bool

record AT_config_t =
  default_quiet_flag :: "8 word"
  default_verbose_flag :: "8 word"
  default_echo_flag :: "8 word"
  config_process_callback :: "nat option"

text \<open>
  \<open>process_callback\<close> is the address of the scheduler's hook (\<open>None\<close> for null); the hook
  is outside the module, and the operations report how often they called it.
\<close>

record AT_context_t =
  process_callback :: "nat option"
  flags :: AT_flags_t
  rx_buffer :: "nat \<Rightarrow> char"
  rx_buffer_size :: "8 word"
  current_command :: "cmd_ref option"
  commands_list :: "nat \<Rightarrow> cmd_ref option"
  commands_count :: "nat \<Rightarrow> 8 word"

text \<open>
  A callback gets the value behind \<^verbatim>\<open>error_code\<close> and the context, and gives back its
  status, the new value behind \<^verbatim>\<open>error_code\<close>, the context as it left it (through
  the public functions, or directly for the callbacks of at.c) and what it sent to the
  transport. \<^verbatim>\<open>argv\<close> is the list of the first \<^verbatim>\<open>argc\<close> pointers, each the string
  it points to or \<open>None\<close> for null.
\<close>

type_synonym cb_result = "fault + (AT_status_t \<times> int32 \<times> AT_context_t \<times> tx)"
type_synonym AT_command_execution_cb_t = "int32 \<Rightarrow> AT_context_t \<Rightarrow> cb_result"
type_synonym AT_command_read_cb_t = "int32 \<Rightarrow> AT_context_t \<Rightarrow> cb_result"
type_synonym AT_command_write_cb_t =
  "nat \<Rightarrow> string option list \<Rightarrow> int32 \<Rightarrow> AT_context_t \<Rightarrow> cb_result"
type_synonym AT_command_error_enum_to_str_cb_t = "int32 \<Rightarrow> string option"

text \<open>
  The field \<^verbatim>\<open>syntax\<close> is \<open>syntax_str\<close> and \<^verbatim>\<open>help\<close> is \<open>help_str\<close> (both
  names are taken in Isabelle). \<open>syntax_str\<close> is a string: the code reads it without a
  null check wherever it uses a descriptor. The help texts may be null.
\<close>

record AT_command_t =
  syntax_str :: string
  type :: AT_command_type_t
  help_str :: "string option"
  execution_callback :: "AT_command_execution_cb_t option"
  execution_help :: "string option"
  read_callback :: "AT_command_read_cb_t option"
  read_help :: "string option"
  write_callback :: "AT_command_write_cb_t option"
  write_arguments :: "string option"
  write_help :: "string option"
  enum_to_str_callback :: "AT_command_error_enum_to_str_cb_t option"

text \<open>
  The sizes of the integer types of the build: with \<open>ILP32\<close> \<^verbatim>\<open>long\<close> has 32 bits and
  is the type behind \<^verbatim>\<open>int32_t\<close> (the microcontroller targets), with \<open>LP64\<close>
  \<^verbatim>\<open>int32_t\<close> is \<^verbatim>\<open>int\<close> and \<^verbatim>\<open>long\<close> has 64 bits.
\<close>

datatype data_model = ILP32 | LP64

text \<open>
  The collaborators of the module: the descriptors the application owns, by address,
  the hardware interface of \<^verbatim>\<open>at_hw_api.h\<close> (the status \<^verbatim>\<open>AT_HW_API_write\<close> returns for
  the bytes it is given, and the status of \<^verbatim>\<open>AT_HW_API_init\<close>), and the data model the
  module is compiled for.
\<close>

record AT_env =
  user_commands :: "nat \<Rightarrow> AT_command_t"
  AT_HW_API_write :: "string \<Rightarrow> AT_status_t"
  AT_HW_API_init :: AT_status_t
  target :: data_model

subsection \<open>C strings\<close>

text \<open>A \<^verbatim>\<open>char *\<close> to a string ends at its first NUL.\<close>

definition c_str :: "string \<Rightarrow> string" where
  "c_str t = takeWhile (\<lambda>c. c \<noteq> NUL) t"

definition strlen :: "string \<Rightarrow> nat" where
  "strlen t = length (c_str t)"

text \<open>
  The string that starts at \<^verbatim>\<open>&rx_buffer[off]\<close>: the bytes up to the first NUL inside the
  array. With no NUL there, reading it runs off the array.
\<close>

definition buffer_string :: "(nat \<Rightarrow> char) \<Rightarrow> nat \<Rightarrow> fault + string" where
  "buffer_string buf off =
     (let bytes = map buf [off..<AT_BUFFER_SIZE]
      in if NUL \<in> set bytes then Inr (takeWhile (\<lambda>c. c \<noteq> NUL) bytes) else Inl OutOfBounds)"

text \<open>
  \<^verbatim>\<open>memcmp(&rx_buffer[off], t, n) == 0\<close>. The comparison is of \<open>n\<close> bytes of both
  objects, so it needs \<open>n\<close> bytes of the array from \<open>off\<close>.
\<close>

definition memcmp_eq :: "(nat \<Rightarrow> char) \<Rightarrow> nat \<Rightarrow> string \<Rightarrow> nat \<Rightarrow> fault + bool" where
  "memcmp_eq buf off t n =
     (if AT_BUFFER_SIZE < off + n then Inl OutOfBounds
      else Inr (map buf [off..<off + n] = take n t))"

subsection \<open>Receive interrupt\<close>

text \<open>
  \<^verbatim>\<open>_rx_irq_callback\<close>. The second component of the result is the number of calls of
  \<^verbatim>\<open>process_callback\<close>.
\<close>

definition rx_irq_callback :: "char \<Rightarrow> AT_context_t \<Rightarrow> fault + (AT_context_t \<times> nat)" where
  "rx_irq_callback data s =
     (if data = NUL \<or> pending (flags s) then Inr (s, 0)
      else if data = AT_COMMAND_MARKER_END then
        Inr (s\<lparr>flags := (flags s)\<lparr>process := True, pending := True\<rparr>\<rparr>,
             (case process_callback s of None \<Rightarrow> 0 | Some cb \<Rightarrow> 1))
      else if AT_BUFFER_SIZE \<le> unat (rx_buffer_size s) then Inl OutOfBounds
      else
        Inr (s\<lparr>rx_buffer := (rx_buffer s)(unat (rx_buffer_size s) := data),
               rx_buffer_size := of_nat ((unat (rx_buffer_size s) + 1) mod AT_BUFFER_SIZE)\<rparr>, 0))"

text \<open>
  The hardware interface delivering a sequence of bytes, one interrupt each; the
  notifications add up.
\<close>

fun deliver_bytes :: "string \<Rightarrow> AT_context_t \<Rightarrow> fault + (AT_context_t \<times> nat)" where
  "deliver_bytes [] s = Inr (s, 0)"
| "deliver_bytes (b # bs) s =
     (case rx_irq_callback b s of
        Inl f \<Rightarrow> Inl f
      | Inr (s', n) \<Rightarrow>
          (case deliver_bytes bs s' of Inl f \<Rightarrow> Inl f | Inr (s'', m) \<Rightarrow> Inr (s'', n + m)))"

subsection \<open>Library functions the module calls\<close>

text \<open>
  \<^verbatim>\<open>sscanf(t, "%d", &tmp_int)\<close> of the C library: white space is skipped, then an
  optional sign and a non-empty run of decimal digits are read. \<open>None\<close> stands for a
  return value other than 1. The value read is stored in an \<^verbatim>\<open>int\<close> of 32 bits; the C
  standard gives no meaning to the call when the value does not fit.
\<close>

definition isspace :: "char \<Rightarrow> bool" where
  "isspace c = (c \<in> set [CHR '' '', CHR 0x09, CHR 0x0A, CHR 0x0B, CHR 0x0C, CHR 0x0D])"

definition isdigit :: "char \<Rightarrow> bool" where
  "isdigit c = (c \<in> set ''0123456789'')"

definition digit_value :: "char \<Rightarrow> nat" where
  "digit_value c = of_char c - 48"

definition decimal_value :: "string \<Rightarrow> nat" where
  "decimal_value ds = foldl (\<lambda>a c. 10 * a + digit_value c) 0 ds"

definition sscanf_d :: "string \<Rightarrow> int option" where
  "sscanf_d t =
     (let t1 = dropWhile isspace t;
          negative = (case t1 of [] \<Rightarrow> False | c # r \<Rightarrow> c = CHR ''-'');
          t2 = (case t1 of [] \<Rightarrow> [] | c # r \<Rightarrow> if c = CHR ''-'' \<or> c = CHR ''+'' then r else t1);
          ds = takeWhile isdigit t2
      in if ds = [] then None
         else Some (if negative then - int (decimal_value ds) else int (decimal_value ds)))"

text \<open>
  \<^verbatim>\<open>strtok_r(content, ",", &content)\<close> of the C library, called with a non-null first
  argument: leading separators are skipped; with nothing left the result is null;
  otherwise the token runs to the next separator, and the saved pointer is left behind
  that separator, or on the end of the string when the token is the last thing in it.
  The result here is the token and the string the saved pointer is left on. The call
  also overwrites the separator that ends the token with NUL inside \<^verbatim>\<open>rx_buffer\<close>; the
  tokens are handed on as values, and nothing reads those bytes of the buffer again before
  \<^verbatim>\<open>AT_process\<close> clears it.
\<close>

definition strtok_r :: "string \<Rightarrow> (string \<times> string) option" where
  "strtok_r t =
     (let t1 = dropWhile (\<lambda>c. c = AT_COMMAND_PARAMETER_SEPARATOR) t
      in if t1 = [] then None
         else Some (takeWhile (\<lambda>c. c \<noteq> AT_COMMAND_PARAMETER_SEPARATOR) t1,
                    drop 1 (dropWhile (\<lambda>c. c \<noteq> AT_COMMAND_PARAMETER_SEPARATOR) t1)))"

text \<open>
  \<^verbatim>\<open>snprintf(tx_buffer, AT_BUFFER_SIZE, ...)\<close> into the zeroed array \<^verbatim>\<open>tx_buffer\<close>, for
  the formatted text \<open>text\<close>: the array afterwards, and the return value (the length of
  the whole text, also when it was cut).
\<close>

definition snprintf_tx_buffer :: "string \<Rightarrow> string \<times> nat" where
  "snprintf_tx_buffer text =
     (take (AT_BUFFER_SIZE - 1) text
        @ replicate (AT_BUFFER_SIZE - min (AT_BUFFER_SIZE - 1) (length text)) NUL,
      length text)"

definition digit_char :: "nat \<Rightarrow> char" where
  "digit_char d = ''0123456789ABCDEF'' ! d"

function print_dec :: "nat \<Rightarrow> string" where
  "print_dec n = (if n < 10 then [digit_char n] else print_dec (n div 10) @ [digit_char (n mod 10)])"
  by pat_completeness auto
termination
  by (relation "measure (\<lambda>n. n)") auto

function print_hex :: "nat \<Rightarrow> string" where
  "print_hex n = (if n < 16 then [digit_char n] else print_hex (n div 16) @ [digit_char (n mod 16)])"
  by pat_completeness auto
termination
  by (relation "measure (\<lambda>n. n)") auto

declare print_dec.simps [simp del] print_hex.simps [simp del]

text \<open>The conversions \<^verbatim>\<open>%d\<close> of a signed value and \<^verbatim>\<open>%02X\<close>.\<close>

definition format_d :: "int \<Rightarrow> string" where
  "format_d i = (if i < 0 then CHR ''-'' # print_dec (nat (- i)) else print_dec (nat i))"

definition format_02X :: "nat \<Rightarrow> string" where
  "format_02X n = (if n < 16 then CHR ''0'' # print_hex n else print_hex n)"

text \<open>
  The conversion \<^verbatim>\<open>%ld\<close> given the \<^verbatim>\<open>int32_t\<close> \<^verbatim>\<open>error_code\<close>. Where \<^verbatim>\<open>int32_t\<close>
  is \<^verbatim>\<open>long\<close> the argument has the type the conversion asks for, and is printed as a
  signed value of 32 bits. On an LP64 build the argument is passed as an \<^verbatim>\<open>int\<close> and
  read as a \<^verbatim>\<open>long\<close> of 64 bits, to which the C standard gives no meaning; the
  x86-64 build reads the 32 bits of the argument with the upper half zero, so that a
  negative code is printed as its value plus \<open>2\<^sup>3\<^sup>2\<close> (\<^verbatim>\<open>4294967295\<close> for \<open>-1\<close>), which
  is what is modelled.
\<close>

definition format_ld :: "data_model \<Rightarrow> int32 \<Rightarrow> string" where
  "format_ld m v = (case m of ILP32 \<Rightarrow> format_d (sint v) | LP64 \<Rightarrow> print_dec (unat v))"

subsection \<open>The commands E, V and Q\<close>

text \<open>
  \<^verbatim>\<open>_parse_bit\<close>, with the value behind \<^verbatim>\<open>bit\<close> before and after. The argument is read
  through \<^verbatim>\<open>argv[0]\<close>, which is null for an omitted parameter.
\<close>

definition parse_bit :: "nat \<Rightarrow> string option list \<Rightarrow> 8 word \<Rightarrow> fault + (AT_status_t \<times> 8 word)" where
  "parse_bit argc argv bit_val =
     (if argc \<noteq> 1 then Inr (AT_ERROR_EXTERNAL_COMMAND_BAD_PARAMETER_NUMBER, bit_val)
      else
        (case argv of
           [] \<Rightarrow> Inl OutOfBounds
         | None # rest \<Rightarrow> Inl NullDereference
         | Some a # rest \<Rightarrow>
             (case sscanf_d a of
                None \<Rightarrow> Inr (AT_ERROR_EXTERNAL_COMMAND_BAD_PARAMETER_PARSING, bit_val)
              | Some tmp_int \<Rightarrow>
                  if tmp_int < - (2 ^ 31) \<or> 2 ^ 31 \<le> tmp_int then Inl UndefinedConversion
                  else if 1 < tmp_int then
                    Inr (AT_ERROR_EXTERNAL_COMMAND_BAD_PARAMETER_VALUE, bit_val)
                  else Inr (AT_SUCCESS, of_int tmp_int))))"

text \<open>
  The flags are bit-fields of width 1: storing the \<^verbatim>\<open>uint8_t\<close> \<open>enable\<close> keeps its
  lowest bit.
\<close>

definition echo_execution_callback :: AT_command_execution_cb_t where
  "echo_execution_callback error_code s =
     Inr (AT_SUCCESS, 0, s\<lparr>flags := (flags s)\<lparr>echo := False\<rparr>\<rparr>, [])"

definition echo_write_callback :: AT_command_write_cb_t where
  "echo_write_callback argc argv error_code s =
     (case parse_bit argc argv 0 of
        Inl f \<Rightarrow> Inl f
      | Inr (status, enable) \<Rightarrow>
          if status \<noteq> AT_SUCCESS then Inr (status, 0, s, [])
          else Inr (AT_SUCCESS, 0, s\<lparr>flags := (flags s)\<lparr>echo := bit enable 0\<rparr>\<rparr>, []))"

definition verbose_execution_callback :: AT_command_execution_cb_t where
  "verbose_execution_callback error_code s =
     Inr (AT_SUCCESS, 0, s\<lparr>flags := (flags s)\<lparr>verbose := False\<rparr>\<rparr>, [])"

definition verbose_write_callback :: AT_command_write_cb_t where
  "verbose_write_callback argc argv error_code s =
     (case parse_bit argc argv 0 of
        Inl f \<Rightarrow> Inl f
      | Inr (status, enable) \<Rightarrow>
          if status \<noteq> AT_SUCCESS then Inr (status, 0, s, [])
          else Inr (AT_SUCCESS, 0, s\<lparr>flags := (flags s)\<lparr>verbose := bit enable 0\<rparr>\<rparr>, []))"

definition quiet_execution_callback :: AT_command_execution_cb_t where
  "quiet_execution_callback error_code s =
     Inr (AT_SUCCESS, 0, s\<lparr>flags := (flags s)\<lparr>quiet := False\<rparr>\<rparr>, [])"

definition quiet_write_callback :: AT_command_write_cb_t where
  "quiet_write_callback argc argv error_code s =
     (case parse_bit argc argv 0 of
        Inl f \<Rightarrow> Inl f
      | Inr (status, enable) \<Rightarrow>
          if status \<noteq> AT_SUCCESS then Inr (status, 0, s, [])
          else Inr (AT_SUCCESS, 0, s\<lparr>flags := (flags s)\<lparr>quiet := bit enable 0\<rparr>\<rparr>, []))"

definition AT_COMMAND_ECHO :: AT_command_t where
  "AT_COMMAND_ECHO =
     \<lparr>syntax_str = ''E'', type = AT_COMMAND_TYPE_BASIC,
      help_str = Some ''Interface echo control'',
      execution_callback = Some echo_execution_callback,
      execution_help = Some ''Disable echo'',
      read_callback = None, read_help = None,
      write_callback = Some echo_write_callback,
      write_arguments = Some ''<enable>'',
      write_help = Some ''Enable (1) or disable (0) echo'',
      enum_to_str_callback = None\<rparr>"

definition AT_COMMAND_VERBOSE :: AT_command_t where
  "AT_COMMAND_VERBOSE =
     \<lparr>syntax_str = ''V'', type = AT_COMMAND_TYPE_BASIC,
      help_str = Some ''Interface verbosity level'',
      execution_callback = Some verbose_execution_callback,
      execution_help = Some ''Disable verbose mode'',
      read_callback = None, read_help = None,
      write_callback = Some verbose_write_callback,
      write_arguments = Some ''<enable>'',
      write_help = Some ''Enable (1) or disable (0) verbose mode'',
      enum_to_str_callback = None\<rparr>"

definition AT_COMMAND_QUIET :: AT_command_t where
  "AT_COMMAND_QUIET =
     \<lparr>syntax_str = ''Q'', type = AT_COMMAND_TYPE_BASIC,
      help_str = Some ''Interface quiet mode control'',
      execution_callback = Some quiet_execution_callback,
      execution_help = Some ''Disable quiet mode'',
      read_callback = None, read_help = None,
      write_callback = Some quiet_write_callback,
      write_arguments = Some ''<enable>'',
      write_help = Some ''Enable (1) or disable (0) quiet mode'',
      enum_to_str_callback = None\<rparr>"

text \<open>Reading a descriptor through a non-null pointer.\<close>

fun command_at :: "AT_env \<Rightarrow> cmd_ref \<Rightarrow> AT_command_t" where
  "command_at env AT_COMMAND_ECHO_ref = AT_COMMAND_ECHO"
| "command_at env AT_COMMAND_VERBOSE_ref = AT_COMMAND_VERBOSE"
| "command_at env AT_COMMAND_QUIET_ref = AT_COMMAND_QUIET"
| "command_at env (User_command a) = user_commands env a"

text \<open>The initial value of \<^verbatim>\<open>at_ctx\<close>.\<close>

definition at_ctx_initial :: AT_context_t where
  "at_ctx_initial =
     \<lparr>process_callback = None,
      flags = \<lparr>process = False, pending = False, quiet = False, verbose = False, echo = False\<rparr>,
      rx_buffer = (\<lambda>idx. NUL),
      rx_buffer_size = 0,
      current_command = None,
      commands_list = (\<lambda>idx. None),
      commands_count = (\<lambda>t. 0)\<rparr>"

subsection \<open>Printing\<close>

text \<open>
  Each printing function gives its status and the calls of \<^verbatim>\<open>AT_HW_API_write\<close> it made.
  \<^verbatim>\<open>_print_tab\<close> sends the first \<open>tab_size\<close> bytes of the array \<open>tab\<close>.
\<close>

type_synonym print_result = "fault + (AT_status_t \<times> tx)"

definition print_tab :: "AT_env \<Rightarrow> AT_context_t \<Rightarrow> string \<Rightarrow> nat \<Rightarrow> print_result" where
  "print_tab env s tab tab_size =
     (if quiet (flags s) \<or> tab_size = 0 then Inr (AT_SUCCESS, [])
      else if length tab < tab_size then Inl OutOfBounds
      else Inr (AT_HW_API_write env (take tab_size tab), [take tab_size tab]))"

definition print :: "AT_env \<Rightarrow> AT_context_t \<Rightarrow> string \<Rightarrow> print_result" where
  "print env s text = print_tab env s (c_str text) (strlen text)"

definition end_line :: "AT_env \<Rightarrow> AT_context_t \<Rightarrow> print_result" where
  "end_line env s = print_tab env s AT_REPLY_END 2"

text \<open>
  The pattern \<^verbatim>\<open>status = step; if (status != AT_SUCCESS) goto errors;\<close> repeated: the steps
  run in order up to the first one that does not succeed, whose status is the result.
\<close>

fun print_steps :: "print_result list \<Rightarrow> print_result" where
  "print_steps [] = Inr (AT_SUCCESS, [])"
| "print_steps (step # rest) =
     (case step of
        Inl f \<Rightarrow> Inl f
      | Inr (status, out) \<Rightarrow>
          if status \<noteq> AT_SUCCESS then Inr (status, out)
          else
            (case print_steps rest of
               Inl f \<Rightarrow> Inl f
             | Inr (status', out') \<Rightarrow> Inr (status', out @ out')))"

definition print_line :: "AT_env \<Rightarrow> AT_context_t \<Rightarrow> string \<Rightarrow> print_result" where
  "print_line env s line = print_steps [print env s line, end_line env s]"

text \<open>Printing through a \<^verbatim>\<open>const char *\<close> field of a descriptor, which may be null.\<close>

definition print_ptr :: "AT_env \<Rightarrow> AT_context_t \<Rightarrow> string option \<Rightarrow> print_result" where
  "print_ptr env s text = (case text of None \<Rightarrow> Inl NullDereference | Some t \<Rightarrow> print env s t)"

definition print_line_ptr :: "AT_env \<Rightarrow> AT_context_t \<Rightarrow> string option \<Rightarrow> print_result" where
  "print_line_ptr env s text =
     (case text of None \<Rightarrow> Inl NullDereference | Some t \<Rightarrow> print_line env s t)"

subsection \<open>The status line\<close>

text \<open>
  The text \<^verbatim>\<open>_print_command_status\<close> formats after \<^verbatim>\<open>"ERROR:"\<close> in verbose mode. The
  translator of the current command is reached through \<^verbatim>\<open>at_ctx.current_command\<close>
  without a null check, and what it returns is printed with \<^verbatim>\<open>%s\<close>.
\<close>

definition command_status_text ::
  "AT_env \<Rightarrow> AT_context_t \<Rightarrow> AT_status_t \<Rightarrow> int32 \<Rightarrow> fault + string" where
  "command_status_text env s at_status error_code =
     (case at_status of
        AT_ERROR_INTERNAL_COMMAND_PARSING \<Rightarrow> Inr ''COMMAND_PARSING''
      | AT_ERROR_INTERNAL_COMMAND_NOT_FOUND \<Rightarrow> Inr ''COMMAND_NOT_FOUND''
      | AT_ERROR_INTERNAL_COMMAND_MARKER_NOT_DEFINED \<Rightarrow> Inr ''COMMAND_MARKER_NOT_DEFINED''
      | AT_ERROR_INTERNAL_COMMAND_EXECUTION_NOT_DEFINED \<Rightarrow> Inr ''COMMAND_EXECUTION_NOT_DEFINED''
      | AT_ERROR_INTERNAL_COMMAND_WRITE_NOT_DEFINED \<Rightarrow> Inr ''COMMAND_WRITE_NOT_DEFINED''
      | AT_ERROR_INTERNAL_COMMAND_READ_NOT_DEFINED \<Rightarrow> Inr ''COMMAND_READ_NOT_DEFINED''
      | AT_ERROR_EXTERNAL_COMMAND_BAD_PARAMETER_NUMBER \<Rightarrow>
          Inr (''COMMAND_BAD_PARAMETER_NUMBER:'' @ format_ld (target env) error_code)
      | AT_ERROR_EXTERNAL_COMMAND_BAD_PARAMETER_PARSING \<Rightarrow>
          Inr (''COMMAND_BAD_PARAMETER_PARSING:'' @ format_ld (target env) error_code)
      | AT_ERROR_EXTERNAL_COMMAND_BAD_PARAMETER_VALUE \<Rightarrow>
          Inr (''COMMAND_BAD_PARAMETER_VALUE:'' @ format_ld (target env) error_code)
      | AT_ERROR_EXTERNAL_COMMAND_CORE_ERROR \<Rightarrow>
          (case current_command s of
             None \<Rightarrow> Inl NullDereference
           | Some cmd \<Rightarrow>
               (case enum_to_str_callback (command_at env cmd) of
                  Some to_str \<Rightarrow>
                    (case to_str error_code of
                       None \<Rightarrow> Inl NullDereference
                     | Some t \<Rightarrow> Inr (''COMMAND_CORE_ERROR:'' @ c_str t))
                | None \<Rightarrow> Inr (''COMMAND_CORE_ERROR:0x'' @ format_02X (unat error_code))))
      | _ \<Rightarrow> Inr (''UNKNOWN:'' @ format_d (int (status_value at_status))))"

text \<open>
  The end of \<^verbatim>\<open>_print_command_status\<close>: the formatted text goes through \<^verbatim>\<open>tx_buffer\<close>
  and is sent with the length \<^verbatim>\<open>snprintf\<close> returned, then the line is ended. \<open>header\<close>
  is what was sent before. The statuses of the writes are dropped.
\<close>

definition print_status_buffer ::
  "AT_env \<Rightarrow> AT_context_t \<Rightarrow> tx \<Rightarrow> string \<Rightarrow> fault + tx" where
  "print_status_buffer env s header text =
     (case print_tab env s (fst (snprintf_tx_buffer text)) (snd (snprintf_tx_buffer text)) of
        Inl f \<Rightarrow> Inl f
      | Inr (st1, out1) \<Rightarrow>
          (case end_line env s of
             Inl f \<Rightarrow> Inl f
           | Inr (st2, out2) \<Rightarrow> Inr (header @ out1 @ out2)))"

definition print_command_status ::
  "AT_env \<Rightarrow> AT_context_t \<Rightarrow> AT_status_t \<Rightarrow> int32 \<Rightarrow> fault + tx" where
  "print_command_status env s at_status error_code =
     (if \<not> verbose (flags s) then
        print_status_buffer env s [] (format_d (int (status_value at_status)))
      else if at_status = AT_SUCCESS then
        (case print env s ''OK'' of
           Inl f \<Rightarrow> Inl f
         | Inr (st, header) \<Rightarrow> print_status_buffer env s header [])
      else
        (case print env s ''ERROR:'' of
           Inl f \<Rightarrow> Inl f
         | Inr (st, header) \<Rightarrow>
             (case command_status_text env s at_status error_code of
                Inl f \<Rightarrow> Inl f
              | Inr text \<Rightarrow> print_status_buffer env s header text)))"

subsection \<open>Parsing the parameters of a write command\<close>

text \<open>
  \<^verbatim>\<open>while (*content == ',') { command_argv[command_argc++] = NULL; content++; }\<close> on
  the string \<open>content\<close> points to; \<open>argv\<close> holds the pointers stored so far, and
  \<^verbatim>\<open>command_argv\<close> has room for 10.
\<close>

fun skip_separators ::
  "string \<Rightarrow> string option list \<Rightarrow> fault + (string \<times> string option list)" where
  "skip_separators [] argv = Inr ([], argv)"
| "skip_separators (c # cs) argv =
     (if c = AT_COMMAND_PARAMETER_SEPARATOR then
        (if AT_COMMAND_PARAMETER_MAX_NUMBER \<le> length argv then Inl OutOfBounds
         else skip_separators cs (argv @ [None]))
      else Inr (c # cs, argv))"

lemma skip_separators_length:
  "skip_separators t argv = Inr (t', argv') \<Longrightarrow> length t' \<le> length t"
  by (induction t argv rule: skip_separators.induct) (auto split: if_splits)

lemma strtok_r_length: "strtok_r t = Some (tok, t') \<Longrightarrow> length t' < length t"
proof -
  assume a: "strtok_r t = Some (tok, t')"
  define t1 where "t1 = dropWhile (\<lambda>c. c = AT_COMMAND_PARAMETER_SEPARATOR) t"
  define r where "r = dropWhile (\<lambda>c. c \<noteq> AT_COMMAND_PARAMETER_SEPARATOR) t1"
  from a have ne: "t1 \<noteq> []" and t': "t' = drop 1 r"
    unfolding strtok_r_def t1_def r_def Let_def by (simp_all split: if_splits)
  have "length r \<le> length t1" unfolding r_def by (rule length_dropWhile_le)
  moreover have "length t1 \<le> length t" unfolding t1_def by (rule length_dropWhile_le)
  ultimately show ?thesis using t' ne by (cases r) auto
qed

text \<open>
  \<^verbatim>\<open>while ((parameter = strtok_r(content, separators, &content))) { ... }\<close> with the inner
  loop over the separators that follow the token.
\<close>

function parse_parameters_loop ::
  "string \<Rightarrow> string option list \<Rightarrow> fault + string option list" where
  "parse_parameters_loop content argv =
     (case strtok_r content of
        None \<Rightarrow> Inr argv
      | Some (parameter, content') \<Rightarrow>
          if AT_COMMAND_PARAMETER_MAX_NUMBER \<le> length argv then Inl OutOfBounds
          else
            (case skip_separators content' (argv @ [Some parameter]) of
               Inl f \<Rightarrow> Inl f
             | Inr (content'', argv') \<Rightarrow> parse_parameters_loop content'' argv'))"
  by pat_completeness auto
termination
  apply (relation "measure (\<lambda>(content, argv). length content)")
   apply simp
  apply (auto dest!: skip_separators_length strtok_r_length)
  done

declare parse_parameters_loop.simps [simp del]

text \<open>The two loops of the write branch, from the first byte after the marker.\<close>

definition parse_parameters :: "string \<Rightarrow> fault + string option list" where
  "parse_parameters content =
     (case skip_separators content [] of
        Inl f \<Rightarrow> Inl f
      | Inr (content', argv) \<Rightarrow> parse_parameters_loop content' argv)"

subsection \<open>Searching and executing a command\<close>

text \<open>
  The search loop of \<^verbatim>\<open>_parse_and_execute_command\<close> over the slots \<open>idxs\<close>, for the
  input that starts at \<^verbatim>\<open>&rx_buffer[off]\<close>: the result is the pointer stored in
  \<^verbatim>\<open>at_ctx.current_command\<close> with the value of \<^verbatim>\<open>command_size\<close> at the
  \<^verbatim>\<open>break\<close>, or \<open>None\<close> when the loop ends without a match.
\<close>

fun search_command ::
  "AT_env \<Rightarrow> AT_context_t \<Rightarrow> nat \<Rightarrow> AT_command_type_t \<Rightarrow> nat list
     \<Rightarrow> fault + (cmd_ref \<times> nat) option" where
  "search_command env s off t [] = Inr None"
| "search_command env s off t (idx # idxs) =
     (case commands_list s idx of
        None \<Rightarrow> search_command env s off t idxs
      | Some cmd \<Rightarrow>
          if type (command_at env cmd) \<noteq> t then search_command env s off t idxs
          else
            (case memcmp_eq (rx_buffer s) off (c_str (syntax_str (command_at env cmd)))
                    (strlen (syntax_str (command_at env cmd))) of
               Inl f \<Rightarrow> Inl f
             | Inr True \<Rightarrow> Inr (Some (cmd, strlen (syntax_str (command_at env cmd))))
             | Inr False \<Rightarrow> search_command env s off t idxs))"

text \<open>
  The marker check of \<^verbatim>\<open>_parse_and_execute_command\<close>, for the command \<open>cmd\<close> found
  with \<open>command_size\<close>; \<open>s\<close> is the context with \<^verbatim>\<open>current_command\<close> set.
\<close>

definition execute_command ::
  "AT_env \<Rightarrow> nat \<Rightarrow> AT_command_type_t \<Rightarrow> int32 \<Rightarrow> cmd_ref \<Rightarrow> nat \<Rightarrow> AT_context_t \<Rightarrow> cb_result" where
  "execute_command env off t command_return_code cmd command_size s =
     (if AT_BUFFER_SIZE \<le> off + command_size then Inl OutOfBounds
      else if rx_buffer s (off + command_size) = AT_COMMAND_MARKER_EXECUTION then
        (case execution_callback (command_at env cmd) of
           None \<Rightarrow> Inr (AT_ERROR_INTERNAL_COMMAND_EXECUTION_NOT_DEFINED, command_return_code, s, [])
         | Some cb \<Rightarrow> cb command_return_code s)
      else if rx_buffer s (off + command_size) = AT_COMMAND_MARKER_READ_HELP then
        (case read_callback (command_at env cmd) of
           None \<Rightarrow> Inr (AT_ERROR_INTERNAL_COMMAND_READ_NOT_DEFINED, command_return_code, s, [])
         | Some cb \<Rightarrow> cb command_return_code s)
      else if rx_buffer s (off + command_size) = AT_COMMAND_MARKER_WRITE
              \<or> t = AT_COMMAND_TYPE_BASIC then
        (case write_callback (command_at env cmd) of
           None \<Rightarrow> Inr (AT_ERROR_INTERNAL_COMMAND_WRITE_NOT_DEFINED, command_return_code, s, [])
         | Some cb \<Rightarrow>
             (case buffer_string (rx_buffer s)
                     (if t = AT_COMMAND_TYPE_BASIC then off + command_size
                      else off + command_size + 1) of
                Inl f \<Rightarrow> Inl f
              | Inr content \<Rightarrow>
                  (case parse_parameters content of
                     Inl f \<Rightarrow> Inl f
                   | Inr command_argv \<Rightarrow>
                       cb (length command_argv) command_argv command_return_code s)))
      else Inr (AT_ERROR_INTERNAL_COMMAND_MARKER_NOT_DEFINED, command_return_code, s, []))"

text \<open>
  \<^verbatim>\<open>_parse_and_execute_command(&at_ctx.rx_buffer[off], type, &command_return_code)\<close>. The
  status a callback returns is the status of the function.
\<close>

definition parse_and_execute_command ::
  "AT_env \<Rightarrow> nat \<Rightarrow> AT_command_type_t \<Rightarrow> int32 \<Rightarrow> AT_context_t \<Rightarrow> cb_result" where
  "parse_and_execute_command env off t command_return_code s =
     (case search_command env (s\<lparr>current_command := None\<rparr>) off t [0..<AT_COMMAND_LIST_SIZE] of
        Inl f \<Rightarrow> Inl f
      | Inr None \<Rightarrow>
          Inr (AT_ERROR_INTERNAL_COMMAND_NOT_FOUND, command_return_code,
               s\<lparr>current_command := None\<rparr>, [])
      | Inr (Some (cmd, command_size)) \<Rightarrow>
          execute_command env off t command_return_code cmd command_size
            (s\<lparr>current_command := Some cmd\<rparr>))"

subsection \<open>Help\<close>

definition AT_COMMAND_HEADER :: "AT_command_type_t \<Rightarrow> char" where
  "AT_COMMAND_HEADER t =
     (case t of
        AT_COMMAND_TYPE_BASIC \<Rightarrow> AT_COMMAND_HEADER_BASIC
      | AT_COMMAND_TYPE_EXTENDED \<Rightarrow> AT_COMMAND_HEADER_EXTENDED
      | _ \<Rightarrow> AT_COMMAND_HEADER_DEBUG)"

definition print_command_header :: "AT_env \<Rightarrow> AT_context_t \<Rightarrow> AT_command_type_t \<Rightarrow> print_result" where
  "print_command_header env s t =
     (if type_value AT_COMMAND_TYPE_LAST \<le> type_value t then Inr (AT_ERROR_COMMAND_TYPE, [])
      else print env s [AT_COMMAND_HEADER t, NUL])"

text \<open>The body of the loop of \<^verbatim>\<open>_print_help\<close> for a slot that holds \<open>cmd\<close> of type \<open>t\<close>.\<close>

definition print_help_command ::
  "AT_env \<Rightarrow> AT_context_t \<Rightarrow> AT_command_type_t \<Rightarrow> AT_command_t \<Rightarrow> print_result" where
  "print_help_command env s t cmd =
     print_steps
       ([print env s ''    '',
         print env s (syntax_str cmd),
         print env s '' : '',
         print_line_ptr env s (help_str cmd)]
        @ (case execution_callback cmd of
             None \<Rightarrow> []
           | Some cb \<Rightarrow>
               [print env s AT_COMMAND_HEADER_HELP,
                print env s AT_HEADER,
                print_command_header env s t,
                print env s (syntax_str cmd),
                print env s '' : '',
                print_line_ptr env s (execution_help cmd)])
        @ (case write_callback cmd of
             None \<Rightarrow> []
           | Some cb \<Rightarrow>
               [print env s AT_COMMAND_HEADER_HELP,
                print env s AT_HEADER,
                print_command_header env s t,
                print env s (syntax_str cmd)]
               @ (if t \<noteq> AT_COMMAND_TYPE_BASIC then [print env s [AT_COMMAND_MARKER_WRITE, NUL]]
                  else [])
               @ [print_ptr env s (write_arguments cmd),
                  print env s '' : '',
                  print_line_ptr env s (write_help cmd)])
        @ (case read_callback cmd of
             None \<Rightarrow> []
           | Some cb \<Rightarrow>
               [print env s AT_COMMAND_HEADER_HELP,
                print env s AT_HEADER,
                print_command_header env s t,
                print env s (syntax_str cmd),
                print env s [AT_COMMAND_MARKER_READ_HELP, NUL],
                print env s '' : '',
                print_line_ptr env s (read_help cmd)]))"

text \<open>\<^verbatim>\<open>_print_help\<close>. \<^verbatim>\<open>commands_count\<close> has one counter for each of the three types.\<close>

definition print_help :: "AT_env \<Rightarrow> AT_context_t \<Rightarrow> AT_command_type_t \<Rightarrow> print_result" where
  "print_help env s t =
     (if type_value AT_COMMAND_TYPE_LAST \<le> type_value t then Inl OutOfBounds
      else if commands_count s (type_value t) = 0 then print_line env s ''    None''
      else
        print_steps
          (map (\<lambda>idx.
                  case commands_list s idx of
                    None \<Rightarrow> Inr (AT_SUCCESS, [])
                  | Some cmd \<Rightarrow>
                      if type (command_at env cmd) = t
                      then print_help_command env s t (command_at env cmd)
                      else Inr (AT_SUCCESS, []))
             [0..<AT_COMMAND_LIST_SIZE]))"

subsection \<open>The public functions\<close>

text \<open>
  The two search loops of the registry: the first slot, in the order of \<open>idx\<close>, that
  holds the pointer \<open>p\<close> (null for a free slot).
\<close>

definition find_slot :: "AT_context_t \<Rightarrow> cmd_ref option \<Rightarrow> nat option" where
  "find_slot s p = List.find (\<lambda>idx. commands_list s idx = p) [0..<AT_COMMAND_LIST_SIZE]"

text \<open>
  \<^verbatim>\<open>AT_register_command\<close>. After the loop that looks for a free slot the function
  executes \<^verbatim>\<open>return AT_SUCCESS;\<close> whether or not a slot was found; the local
  \<^verbatim>\<open>status\<close>, still \<^verbatim>\<open>AT_ERROR_COMMANDS_LIST_FULL\<close> when the list is full, is returned
  on the \<^verbatim>\<open>errors\<close> path only.
\<close>

definition AT_register_command ::
  "AT_env \<Rightarrow> cmd_ref option \<Rightarrow> AT_context_t \<Rightarrow> AT_status_t \<times> AT_context_t" where
  "AT_register_command env command s =
     (case command of
        None \<Rightarrow> (AT_ERROR_NULL_PARAMETER, s)
      | Some cmd \<Rightarrow>
          if \<not> Option.is_none (write_callback (command_at env cmd))
             \<and> Option.is_none (write_arguments (command_at env cmd))
          then (AT_ERROR_WRITE_CALLBACK_WITHOUT_PARAMETER, s)
          else if type_value AT_COMMAND_TYPE_LAST \<le> type_value (type (command_at env cmd))
          then (AT_ERROR_COMMAND_TYPE, s)
          else if \<not> Option.is_none (find_slot s (Some cmd))
          then (AT_ERROR_COMMAND_ALREADY_REGISTERED, s)
          else
            (case find_slot s None of
               None \<Rightarrow> (AT_SUCCESS, s)
             | Some idx \<Rightarrow>
                 (AT_SUCCESS,
                  s\<lparr>commands_list := (commands_list s)(idx := Some cmd),
                    commands_count := (commands_count s)
                      (type_value (type (command_at env cmd)) :=
                         commands_count s (type_value (type (command_at env cmd))) + 1)\<rparr>)))"

text \<open>
  \<^verbatim>\<open>AT_unregister_command\<close>. The loop compares each slot with \<^verbatim>\<open>command\<close>, whatever
  it is; at the first equal slot the slot is cleared and \<^verbatim>\<open>command->type\<close> is read.
\<close>

definition AT_unregister_command ::
  "AT_env \<Rightarrow> cmd_ref option \<Rightarrow> AT_context_t \<Rightarrow> fault + (AT_status_t \<times> AT_context_t)" where
  "AT_unregister_command env command s =
     (case find_slot s command of
        None \<Rightarrow> Inr (AT_ERROR_COMMAND_NOT_REGISTERED, s)
      | Some idx \<Rightarrow>
          (case command of
             None \<Rightarrow> Inl NullDereference
           | Some cmd \<Rightarrow>
               if type_value AT_COMMAND_TYPE_LAST \<le> type_value (type (command_at env cmd))
               then Inl OutOfBounds
               else
                 Inr (AT_SUCCESS,
                      s\<lparr>commands_list := (commands_list s)(idx := None),
                        commands_count := (commands_count s)
                          (type_value (type (command_at env cmd)) :=
                             commands_count s (type_value (type (command_at env cmd))) - 1)\<rparr>)))"

text \<open>\<^verbatim>\<open>AT_init\<close>, for a non-null \<^verbatim>\<open>config\<close>.\<close>

definition AT_init :: "AT_env \<Rightarrow> AT_config_t \<Rightarrow> AT_context_t \<Rightarrow> AT_status_t \<times> AT_context_t" where
  "AT_init env config s =
     (if Option.is_none (config_process_callback config) then (AT_ERROR_NULL_PARAMETER, s)
      else
        let s1 = s\<lparr>flags := (flags s)\<lparr>quiet := (default_quiet_flag config \<noteq> 0),
                                       verbose := (default_verbose_flag config \<noteq> 0),
                                       echo := (default_echo_flag config \<noteq> 0)\<rparr>,
                   process_callback := config_process_callback config\<rparr>
        in if AT_HW_API_init env \<noteq> AT_SUCCESS then (AT_HW_API_init env, s1)
           else
             (case AT_register_command env (Some AT_COMMAND_ECHO_ref) s1 of
                (st2, s2) \<Rightarrow>
                  if st2 \<noteq> AT_SUCCESS then (st2, s2)
                  else
                    (case AT_register_command env (Some AT_COMMAND_VERBOSE_ref) s2 of
                       (st3, s3) \<Rightarrow>
                         if st3 \<noteq> AT_SUCCESS then (st3, s3)
                         else AT_register_command env (Some AT_COMMAND_QUIET_ref) s3)))"

text \<open>\<^verbatim>\<open>AT_send_reply\<close>; it reads the context and does not change it.\<close>

definition AT_send_reply ::
  "AT_env \<Rightarrow> cmd_ref option \<Rightarrow> string option \<Rightarrow> AT_context_t \<Rightarrow> print_result" where
  "AT_send_reply env command reply s =
     (case reply of
        None \<Rightarrow> Inr (AT_ERROR_NULL_PARAMETER, [])
      | Some r \<Rightarrow>
          if c_str r = [] then Inr (AT_ERROR_NULL_PARAMETER, [])
          else
            print_steps
              ((case (case command of Some cmd \<Rightarrow> Some cmd | None \<Rightarrow> current_command s) of
                  None \<Rightarrow> []
                | Some command_ptr \<Rightarrow>
                    [print_command_header env s (type (command_at env command_ptr)),
                     print env s (syntax_str (command_at env command_ptr)),
                     print env s '':''])
               @ [print env s r, end_line env s]))"

subsection \<open>The processing pass\<close>

text \<open>
  What \<^verbatim>\<open>AT_process\<close> did towards the transport, in order: the calls of
  \<^verbatim>\<open>AT_HW_API_write\<close>, and a mark at each call of \<^verbatim>\<open>_print_command_status\<close>, put
  in front of the writes of that call.
\<close>

datatype AT_event = Write string | Command_status AT_status_t int32

text \<open>
  The code of \<^verbatim>\<open>AT_process\<close> from the label \<^verbatim>\<open>errors\<close> on, reached with \<open>status\<close> and
  \<open>command_return_code\<close>; \<open>out\<close> is what was written before.
\<close>

definition AT_process_errors ::
  "AT_env \<Rightarrow> AT_status_t \<Rightarrow> int32 \<Rightarrow> AT_context_t \<Rightarrow> tx
     \<Rightarrow> fault + (AT_status_t \<times> AT_context_t \<times> AT_event list)" where
  "AT_process_errors env status command_return_code s out =
     (case print_command_status env s status command_return_code of
        Inl f \<Rightarrow> Inl f
      | Inr status_out \<Rightarrow>
          Inr (status,
               s\<lparr>flags := (flags s)\<lparr>pending := False\<rparr>,
                 rx_buffer := (\<lambda>idx. if idx < AT_BUFFER_SIZE then NUL else rx_buffer s idx),
                 rx_buffer_size := 0\<rparr>,
               map Write out @ Command_status status command_return_code # map Write status_out))"

text \<open>
  One of the three cases of the \<^verbatim>\<open>switch\<close> that call
  \<^verbatim>\<open>_parse_and_execute_command\<close>; with or without \<^verbatim>\<open>goto errors\<close>, the label
  \<^verbatim>\<open>errors\<close> comes next.
\<close>

definition AT_process_command ::
  "AT_env \<Rightarrow> nat \<Rightarrow> AT_command_type_t \<Rightarrow> AT_context_t \<Rightarrow> tx
     \<Rightarrow> fault + (AT_status_t \<times> AT_context_t \<times> AT_event list)" where
  "AT_process_command env off t s out =
     (case parse_and_execute_command env off t 0 s of
        Inl f \<Rightarrow> Inl f
      | Inr (status, command_return_code, s', out') \<Rightarrow>
          AT_process_errors env status command_return_code s' (out @ out'))"

text \<open>The case \<^verbatim>\<open>AT?\<close> of the \<^verbatim>\<open>switch\<close>.\<close>

definition AT_process_help ::
  "AT_env \<Rightarrow> AT_context_t \<Rightarrow> tx \<Rightarrow> fault + (AT_status_t \<times> AT_context_t \<times> AT_event list)" where
  "AT_process_help env s out =
     (if rx_buffer s 3 = AT_COMMAND_MARKER_EXECUTION then
        (case print_steps
                [print_line env s ''Basic commands'',
                 print_help env s AT_COMMAND_TYPE_BASIC,
                 print_line env s ''Extended commands'',
                 print_help env s AT_COMMAND_TYPE_EXTENDED,
                 print_line env s ''Debug commands'',
                 print_help env s AT_COMMAND_TYPE_DEBUG] of
           Inl f \<Rightarrow> Inl f
         | Inr (status, out') \<Rightarrow> AT_process_errors env status 0 s (out @ out'))
      else AT_process_errors env AT_ERROR_INTERNAL_COMMAND_PARSING 0 s out)"

text \<open>
  The echo of \<^verbatim>\<open>AT_process\<close>: \<^verbatim>\<open>_print_line(at_ctx.rx_buffer)\<close>, whose status is
  dropped.
\<close>

definition AT_process_echo :: "AT_env \<Rightarrow> AT_context_t \<Rightarrow> fault + tx" where
  "AT_process_echo env s =
     (if echo (flags s) then
        (case buffer_string (rx_buffer s) 0 of
           Inl f \<Rightarrow> Inl f
         | Inr line \<Rightarrow>
             (case print_line env s line of Inl f \<Rightarrow> Inl f | Inr (st, out) \<Rightarrow> Inr out))
      else Inr [])"

text \<open>
  \<^verbatim>\<open>AT_process\<close>: its status, the context afterwards and what it did towards the
  transport.
\<close>

definition AT_process ::
  "AT_env \<Rightarrow> AT_context_t \<Rightarrow> fault + (AT_status_t \<times> AT_context_t \<times> AT_event list)" where
  "AT_process env s =
     (if \<not> process (flags s) then Inr (AT_SUCCESS, s, [])
      else
        let s1 = s\<lparr>flags := (flags s)\<lparr>process := False\<rparr>\<rparr>
        in case AT_process_echo env s1 of
             Inl f \<Rightarrow> Inl f
           | Inr out \<Rightarrow>
               (case memcmp_eq (rx_buffer s1) 0 AT_HEADER 2 of
                  Inl f \<Rightarrow> Inl f
                | Inr False \<Rightarrow> AT_process_errors env AT_ERROR_INTERNAL_COMMAND_PARSING 0 s1 out
                | Inr True \<Rightarrow>
                    if rx_buffer s1 2 = AT_COMMAND_MARKER_EXECUTION then
                      AT_process_errors env AT_SUCCESS 0 s1 out
                    else if rx_buffer s1 2 = AT_COMMAND_MARKER_READ_HELP then
                      AT_process_help env s1 out
                    else if rx_buffer s1 2 = AT_COMMAND_HEADER_EXTENDED then
                      AT_process_command env 3 AT_COMMAND_TYPE_EXTENDED s1 out
                    else if rx_buffer s1 2 = AT_COMMAND_HEADER_DEBUG then
                      AT_process_command env 3 AT_COMMAND_TYPE_DEBUG s1 out
                    else AT_process_command env 2 AT_COMMAND_TYPE_BASIC s1 out))"

subsection \<open>Example collaborators and contexts\<close>

text \<open>
  A transport that accepts every write, an LP64 build, and three kinds of application commands:
  \<^verbatim>\<open>AT$ID\<close> with a read callback that sends one line unless quiet mode is on,
  \<^verbatim>\<open>AT!RST\<close> with an execution callback that fails with a core error, and
  \<^verbatim>\<open>AT$FILL\<close> without callbacks at every other address.
\<close>

definition example_hw :: AT_env where
  "example_hw =
     \<lparr>user_commands = (\<lambda>a. AT_COMMAND_ECHO),
      AT_HW_API_write = (\<lambda>data. AT_SUCCESS),
      AT_HW_API_init = AT_SUCCESS,
      target = LP64\<rparr>"

definition example_id_read_callback :: AT_command_read_cb_t where
  "example_id_read_callback error_code s =
     (case print_line example_hw s ''$ID:42'' of
        Inl f \<Rightarrow> Inl f
      | Inr (st, out) \<Rightarrow> Inr (st, 0, s, out))"

definition example_rst_execution_callback :: AT_command_execution_cb_t where
  "example_rst_execution_callback error_code s =
     Inr (AT_ERROR_EXTERNAL_COMMAND_CORE_ERROR, 5, s, [])"

definition example_command :: "nat \<Rightarrow> AT_command_t" where
  "example_command a =
     (if a = 0 then
        \<lparr>syntax_str = ''ID'', type = AT_COMMAND_TYPE_EXTENDED,
         help_str = Some ''Identifier'',
         execution_callback = None, execution_help = None,
         read_callback = Some example_id_read_callback, read_help = Some ''Read identifier'',
         write_callback = None, write_arguments = None, write_help = None,
         enum_to_str_callback = None\<rparr>
      else if a = 1 then
        \<lparr>syntax_str = ''RST'', type = AT_COMMAND_TYPE_DEBUG,
         help_str = Some ''Reset'',
         execution_callback = Some example_rst_execution_callback,
         execution_help = Some ''Reset the device'',
         read_callback = None, read_help = None,
         write_callback = None, write_arguments = None, write_help = None,
         enum_to_str_callback = None\<rparr>
      else
        \<lparr>syntax_str = ''FILL'', type = AT_COMMAND_TYPE_EXTENDED,
         help_str = Some ''Filler'',
         execution_callback = None, execution_help = None,
         read_callback = None, read_help = None,
         write_callback = None, write_arguments = None, write_help = None,
         enum_to_str_callback = None\<rparr>)"

definition example_env :: AT_env where
  "example_env =
     \<lparr>user_commands = example_command,
      AT_HW_API_write = (\<lambda>data. AT_SUCCESS),
      AT_HW_API_init = AT_SUCCESS,
      target = LP64\<rparr>"

text \<open>
  A list with no free slot: 64 distinct application descriptors, one per slot, all of
  type Extended.
\<close>

definition full_list_ctx :: AT_context_t where
  "full_list_ctx =
     at_ctx_initial
       \<lparr>commands_list :=
          (\<lambda>idx. if idx < AT_COMMAND_LIST_SIZE then Some (User_command (idx + 2)) else None),
        commands_count := (\<lambda>t. if t = 1 then 64 else 0)\<rparr>"

text \<open>The list after the first \<open>k\<close> of these descriptors have been registered.\<close>

definition fill_ctx :: "nat \<Rightarrow> AT_context_t" where
  "fill_ctx k =
     at_ctx_initial
       \<lparr>commands_list := (\<lambda>idx. if idx < k then Some (User_command (idx + 2)) else None),
        commands_count := (\<lambda>t. if t = 1 then of_nat k else 0)\<rparr>"

text \<open>A context in which a line is waiting to be processed.\<close>

definition pending_ctx :: AT_context_t where
  "pending_ctx =
     at_ctx_initial\<lparr>flags := (flags at_ctx_initial)\<lparr>process := True, pending := True\<rparr>\<rparr>"

subsection \<open>The parameter list in the words of the specification\<close>

text \<open>
  The positions of an argument string: the pieces between the separators, of which there
  is one more than there are separators.
\<close>

fun split_positions :: "string \<Rightarrow> string list" where
  "split_positions [] = [[]]"
| "split_positions (c # cs) =
     (if c = AT_COMMAND_PARAMETER_SEPARATOR then [] # split_positions cs
      else (c # hd (split_positions cs)) # tl (split_positions cs))"

text \<open>
  The argument slots: every position gives a slot, in order, the argument itself or the
  omitted value when the position is empty, that is when it was skipped by the separator
  that follows it or, at the start, by a leading separator. The last position is followed
  by no separator: it gives a slot when it holds an argument, and none when it is empty.
\<close>

definition argument_slots :: "string \<Rightarrow> string option list" where
  "argument_slots t =
     map (\<lambda>p. if p = [] then None else Some p)
       (if last (split_positions t) = [] then butlast (split_positions t)
        else split_positions t)"

subsection \<open>The dispatcher in the words of the specification\<close>

text \<open>The descriptors in the list, in the order of their slots; empty slots are skipped.\<close>

definition registered_commands :: "AT_context_t \<Rightarrow> cmd_ref list" where
  "registered_commands s = List.map_filter (commands_list s) [0..<AT_COMMAND_LIST_SIZE]"

text \<open>
  The first registered descriptor of type \<open>t\<close> whose syntax is a prefix, byte for byte, of
  the content of the line.
\<close>

definition first_match ::
  "AT_env \<Rightarrow> AT_context_t \<Rightarrow> AT_command_type_t \<Rightarrow> string \<Rightarrow> cmd_ref option" where
  "first_match env s t content =
     List.find (\<lambda>cmd. type (command_at env cmd) = t
                      \<and> prefix (c_str (syntax_str (command_at env cmd))) content)
       (registered_commands s)"

text \<open>
  The call form, chosen by what follows the matched prefix in the line: nothing (the end
  of the line) for the execution callback, \<^verbatim>\<open>?\<close> for the read callback, \<^verbatim>\<open>=\<close> or
  a command of type Basic for the write callback on the tokenized remainder (what follows
  the \<^verbatim>\<open>=\<close>, or for Basic all that follows the prefix), and an undefined marker
  otherwise; an absent callback is an error of its own.
\<close>

definition call_form ::
  "AT_command_type_t \<Rightarrow> int32 \<Rightarrow> AT_command_t \<Rightarrow> string \<Rightarrow> AT_context_t \<Rightarrow> cb_result" where
  "call_form t code cmd rest s =
     (case rest of
        [] \<Rightarrow>
          (case execution_callback cmd of
             None \<Rightarrow> Inr (AT_ERROR_INTERNAL_COMMAND_EXECUTION_NOT_DEFINED, code, s, [])
           | Some cb \<Rightarrow> cb code s)
      | m # args \<Rightarrow>
          if m = CHR ''?'' then
            (case read_callback cmd of
               None \<Rightarrow> Inr (AT_ERROR_INTERNAL_COMMAND_READ_NOT_DEFINED, code, s, [])
             | Some cb \<Rightarrow> cb code s)
          else if m = CHR ''='' \<or> t = AT_COMMAND_TYPE_BASIC then
            (case write_callback cmd of
               None \<Rightarrow> Inr (AT_ERROR_INTERNAL_COMMAND_WRITE_NOT_DEFINED, code, s, [])
             | Some cb \<Rightarrow>
                 (case parse_parameters (if t = AT_COMMAND_TYPE_BASIC then m # args else args) of
                    Inl f \<Rightarrow> Inl f
                  | Inr argv \<Rightarrow> cb (length argv) argv code s))
          else Inr (AT_ERROR_INTERNAL_COMMAND_MARKER_NOT_DEFINED, code, s, []))"

subsection \<open>Example contexts with a received line\<close>

text \<open>The receive buffer that holds \<open>t\<close> from its start and is zero behind it.\<close>

definition line_buffer :: "string \<Rightarrow> nat \<Rightarrow> char" where
  "line_buffer t = (\<lambda>idx. if idx < length t then t ! idx else NUL)"

text \<open>
  The context after \<^verbatim>\<open>AT_init\<close> with the three mode flags as given, and the same with
  the application commands \<^verbatim>\<open>AT$ID\<close> and \<^verbatim>\<open>AT!RST\<close> registered.
\<close>

definition idle_ctx :: "bool \<Rightarrow> bool \<Rightarrow> bool \<Rightarrow> AT_context_t" where
  "idle_ctx q v e =
     \<lparr>process_callback = Some 0,
      flags = \<lparr>process = False, pending = False, quiet = q, verbose = v, echo = e\<rparr>,
      rx_buffer = (\<lambda>idx. NUL),
      rx_buffer_size = 0,
      current_command = None,
      commands_list = (\<lambda>idx. None)
        (0 := Some AT_COMMAND_ECHO_ref, 1 := Some AT_COMMAND_VERBOSE_ref,
         2 := Some AT_COMMAND_QUIET_ref),
      commands_count = (\<lambda>t. 0)(0 := 3)\<rparr>"

definition example_idle_ctx :: "bool \<Rightarrow> bool \<Rightarrow> bool \<Rightarrow> AT_context_t" where
  "example_idle_ctx q v e =
     (idle_ctx q v e)
       \<lparr>commands_list := (commands_list (idle_ctx q v e))
          (3 := Some (User_command 0), 4 := Some (User_command 1)),
        commands_count := (commands_count (idle_ctx q v e))(1 := 1, 2 := 1)\<rparr>"

text \<open>The context \<open>s\<close> after the bytes of \<open>line\<close> and the end marker have come in.\<close>

definition line_ctx :: "AT_context_t \<Rightarrow> string \<Rightarrow> AT_context_t" where
  "line_ctx s line =
     s\<lparr>flags := (flags s)\<lparr>process := True, pending := True\<rparr>,
       rx_buffer := line_buffer line,
       rx_buffer_size := of_nat (length line)\<rparr>"

subsection \<open>Reading what a processing pass did\<close>

text \<open>
  The calls of \<^verbatim>\<open>_print_command_status\<close> among the events of a pass, with their
  arguments, and the calls of \<^verbatim>\<open>AT_HW_API_write\<close> with their bytes.
\<close>

fun status_lines :: "AT_event list \<Rightarrow> (AT_status_t \<times> int32) list" where
  "status_lines [] = []"
| "status_lines (Write d # es) = status_lines es"
| "status_lines (Command_status st code # es) = (st, code) # status_lines es"

fun written :: "AT_event list \<Rightarrow> tx" where
  "written [] = []"
| "written (Write d # es) = d # written es"
| "written (Command_status st code # es) = written es"

text \<open>
  The end of a line cycle that returned \<open>status\<close>: \<^verbatim>\<open>pending\<close> is clear, the 128
  bytes of the buffer are zero, the size is zero, and the events are writes, then one
  status line for \<open>status\<close>, then the writes of that status line.
\<close>

definition line_cycle_done ::
  "AT_env \<Rightarrow> AT_status_t \<Rightarrow> AT_context_t \<Rightarrow> AT_event list \<Rightarrow> bool" where
  "line_cycle_done env status s' events \<longleftrightarrow>
     \<not> pending (flags s')
     \<and> map (rx_buffer s') [0..<AT_BUFFER_SIZE] = replicate AT_BUFFER_SIZE NUL
     \<and> rx_buffer_size s' = 0
     \<and> (\<exists>before code after.
           events = map Write before @ Command_status status code # map Write after
           \<and> print_command_status env s' status code = Inr after
           \<and> status_lines events = [(status, code)])"

text \<open>
  A descriptor whose callbacks, called with the quiet flag set, send nothing to the
  transport themselves; and a printing result with nothing sent.
\<close>

definition silent_when_quiet :: "AT_command_t \<Rightarrow> bool" where
  "silent_when_quiet cmd \<longleftrightarrow>
     (\<forall>cb code s st code' s' out.
        execution_callback cmd = Some cb \<longrightarrow> quiet (flags s) \<longrightarrow>
        cb code s = Inr (st, code', s', out) \<longrightarrow> out = [])
     \<and> (\<forall>cb code s st code' s' out.
        read_callback cmd = Some cb \<longrightarrow> quiet (flags s) \<longrightarrow>
        cb code s = Inr (st, code', s', out) \<longrightarrow> out = [])
     \<and> (\<forall>cb argc argv code s st code' s' out.
        write_callback cmd = Some cb \<longrightarrow> quiet (flags s) \<longrightarrow>
        cb argc argv code s = Inr (st, code', s', out) \<longrightarrow> out = [])"

definition silent :: "print_result \<Rightarrow> bool" where
  "silent r = (case r of Inl f \<Rightarrow> True | Inr (st, out) \<Rightarrow> out = [])"

text \<open>
  The lines that \<^verbatim>\<open>AT_process\<close> hands to \<^verbatim>\<open>_parse_and_execute_command\<close>: the header
  is there and is followed neither by the end of the line nor by \<^verbatim>\<open>?\<close>.
\<close>

definition dispatches :: "AT_context_t \<Rightarrow> bool" where
  "dispatches s \<longleftrightarrow>
     process (flags s) \<and> rx_buffer s 0 = CHR ''A'' \<and> rx_buffer s 1 = CHR ''T''
     \<and> rx_buffer s 2 \<noteq> AT_COMMAND_MARKER_EXECUTION
     \<and> rx_buffer s 2 \<noteq> AT_COMMAND_MARKER_READ_HELP"

subsection \<open>The order of registration\<close>

text \<open>
  The descriptors \<open>cmds\<close> registered one after the other with \<^verbatim>\<open>AT_register_command\<close>,
  and a descriptor that passes the checks of that function.
\<close>

fun register_all :: "AT_env \<Rightarrow> cmd_ref list \<Rightarrow> AT_context_t \<Rightarrow> AT_context_t" where
  "register_all env [] s = s"
| "register_all env (cmd # cmds) s =
     register_all env cmds (snd (AT_register_command env (Some cmd) s))"

definition registrable :: "AT_command_t \<Rightarrow> bool" where
  "registrable cmd \<longleftrightarrow>
     type_value (type cmd) < type_value AT_COMMAND_TYPE_LAST
     \<and> (Option.is_none (write_callback cmd) \<or> \<not> Option.is_none (write_arguments cmd))"

text \<open>
  Application commands of which one syntax is the start of another: \<^verbatim>\<open>AT$TMP\<close> at
  address 0, \<^verbatim>\<open>AT$ID\<close> with a read callback at address 1, and \<^verbatim>\<open>AT$I\<close> elsewhere.
\<close>

definition shadow_command :: "nat \<Rightarrow> AT_command_t" where
  "shadow_command a =
     (if a = 0 then
        \<lparr>syntax_str = ''TMP'', type = AT_COMMAND_TYPE_EXTENDED,
         help_str = Some ''Temporary'',
         execution_callback = None, execution_help = None,
         read_callback = None, read_help = None,
         write_callback = None, write_arguments = None, write_help = None,
         enum_to_str_callback = None\<rparr>
      else if a = 1 then
        \<lparr>syntax_str = ''ID'', type = AT_COMMAND_TYPE_EXTENDED,
         help_str = Some ''Identifier'',
         execution_callback = None, execution_help = None,
         read_callback = Some example_id_read_callback, read_help = Some ''Read identifier'',
         write_callback = None, write_arguments = None, write_help = None,
         enum_to_str_callback = None\<rparr>
      else
        \<lparr>syntax_str = ''I'', type = AT_COMMAND_TYPE_EXTENDED,
         help_str = Some ''Information'',
         execution_callback = None, execution_help = None,
         read_callback = None, read_help = None,
         write_callback = None, write_arguments = None, write_help = None,
         enum_to_str_callback = None\<rparr>)"

definition shadow_env :: AT_env where
  "shadow_env =
     \<lparr>user_commands = shadow_command,
      AT_HW_API_write = (\<lambda>data. AT_SUCCESS),
      AT_HW_API_init = AT_SUCCESS,
      target = LP64\<rparr>"

text \<open>
  The context after \<^verbatim>\<open>AT_init\<close> (verbose on) with \<open>a\<close> and \<open>b\<close> in the two slots behind
  the three commands of at.c, and \<open>n\<close> commands of type Extended counted.
\<close>

definition user_slots_ctx :: "cmd_ref option \<Rightarrow> cmd_ref option \<Rightarrow> 8 word \<Rightarrow> AT_context_t" where
  "user_slots_ctx a b n =
     (idle_ctx False True False)
       \<lparr>commands_list := (commands_list (idle_ctx False True False))(3 := a, 4 := b),
        commands_count := (commands_count (idle_ctx False True False))(1 := n)\<rparr>"

subsection \<open>The mode flags\<close>

text \<open>
  The flags \<^verbatim>\<open>quiet\<close>, \<^verbatim>\<open>verbose\<close> and \<^verbatim>\<open>echo\<close> of a context, and a context with
  these three flags replaced.
\<close>

definition mode_flags :: "AT_context_t \<Rightarrow> bool \<times> bool \<times> bool" where
  "mode_flags s = (quiet (flags s), verbose (flags s), echo (flags s))"

definition with_mode_flags :: "bool \<times> bool \<times> bool \<Rightarrow> AT_context_t \<Rightarrow> AT_context_t" where
  "with_mode_flags m s =
     s\<lparr>flags := (flags s)\<lparr>quiet := fst m, verbose := fst (snd m), echo := snd (snd m)\<rparr>\<rparr>"








section \<open>Properties\<close>

subsection \<open>The registry\<close>

lemma find_slot_None_iff:
  "find_slot s p = None \<longleftrightarrow> (\<forall>idx<AT_COMMAND_LIST_SIZE. commands_list s idx \<noteq> p)"
  by (auto simp: find_slot_def find_None_iff)

lemma find_slot_Some_iff:
  "find_slot s p = Some i \<longleftrightarrow>
     i < AT_COMMAND_LIST_SIZE \<and> commands_list s i = p \<and> (\<forall>j<i. commands_list s j \<noteq> p)"
  by (auto simp: find_slot_def find_Some_iff)

text \<open>
  With every slot taken, registering a descriptor that passes the checks and is not in
  the list goes through both loops without a hit and reaches \<^verbatim>\<open>return AT_SUCCESS\<close>.
\<close>

lemma AT_register_command_no_free_slot:
  assumes full: "\<forall>idx<AT_COMMAND_LIST_SIZE. commands_list s idx \<noteq> None"
    and fresh: "\<forall>idx<AT_COMMAND_LIST_SIZE. commands_list s idx \<noteq> Some cmd"
    and args: "write_callback (command_at env cmd) = None
               \<or> write_arguments (command_at env cmd) \<noteq> None"
    and kind: "type (command_at env cmd) \<noteq> AT_COMMAND_TYPE_LAST"
  shows "AT_register_command env (Some cmd) s = (AT_SUCCESS, s)"
proof -
  have f1: "find_slot s (Some cmd) = None" using fresh by (simp add: find_slot_None_iff)
  have f2: "find_slot s None = None" using full by (simp add: find_slot_None_iff)
  have k: "\<not> type_value AT_COMMAND_TYPE_LAST \<le> type_value (type (command_at env cmd))"
    using kind by (cases "type (command_at env cmd)") simp_all
  show ?thesis using args k f1 f2
    by (auto simp: AT_register_command_def Option.is_none_def)
qed

text \<open>
  C1. Registering a valid descriptor that is not yet registered into a list whose 64
  slots are all taken should return \<^verbatim>\<open>AT_ERROR_COMMANDS_LIST_FULL\<close> and leave the list
  and the counters as they are. The list and the counters do stay as they are, but the
  status returned is \<^verbatim>\<open>AT_SUCCESS\<close>: here for the descriptor at address 66 and the list
  that holds the descriptors at the addresses 2 to 65.
\<close>

theorem AT_register_command_full_list_returns_success:
  "AT_register_command example_env (Some (User_command 66)) full_list_ctx
     = (AT_SUCCESS, full_list_ctx)"
  by (rule AT_register_command_no_free_slot)
     (simp_all add: full_list_ctx_def example_env_def example_command_def)

text \<open>
  The full list above is the one that 64 calls of \<^verbatim>\<open>AT_register_command\<close> build from
  the initial context.
\<close>

lemma fill_ctx_0: "fill_ctx 0 = at_ctx_initial"
  by (simp add: fill_ctx_def at_ctx_initial_def fun_eq_iff)

lemma fill_ctx_64: "fill_ctx AT_COMMAND_LIST_SIZE = full_list_ctx"
  by (simp add: fill_ctx_def full_list_ctx_def fun_eq_iff)

lemma register_fill_ctx:
  assumes "k < AT_COMMAND_LIST_SIZE"
  shows "AT_register_command example_env (Some (User_command (k + 2))) (fill_ctx k)
           = (AT_SUCCESS, fill_ctx (Suc k))"
proof -
  have f1: "find_slot (fill_ctx k) (Some (User_command (Suc (Suc k)))) = None"
    by (simp add: find_slot_None_iff fill_ctx_def)
  have f2: "find_slot (fill_ctx k) None = Some k"
    using assms by (simp add: find_slot_Some_iff fill_ctx_def)
  show ?thesis
    by (simp add: AT_register_command_def f1 f2 Option.is_none_def example_env_def
        example_command_def)
       (simp add: fill_ctx_def fun_eq_iff)
qed

lemma register_fill_all:
  "k \<le> AT_COMMAND_LIST_SIZE \<Longrightarrow>
   fold (\<lambda>a s. snd (AT_register_command example_env (Some (User_command (a + 2))) s))
     [0..<k] at_ctx_initial = fill_ctx k"
proof (induction k)
  case 0
  then show ?case by (simp add: fill_ctx_0)
next
  case (Suc k)
  then have "k < AT_COMMAND_LIST_SIZE" by simp
  from register_fill_ctx [OF this] Suc show ?case by simp
qed

text \<open>
  C9. \<^verbatim>\<open>AT_unregister_command\<close> does not check its argument: with a free slot in the
  list, a null argument is equal to the first free slot, and the function goes on to read
  \<^verbatim>\<open>command->type\<close> through the null pointer; it returns neither
  \<^verbatim>\<open>AT_ERROR_COMMAND_NOT_REGISTERED\<close> nor \<^verbatim>\<open>AT_ERROR_NULL_PARAMETER\<close>.
\<close>

theorem AT_unregister_command_null_dereference:
  assumes "idx < AT_COMMAND_LIST_SIZE" and "commands_list s idx = None"
  shows "(\<exists>i. find_slot s None = Some i \<and> i \<le> idx \<and> commands_list s i = None
             \<and> (\<forall>j<i. commands_list s j \<noteq> None))
         \<and> AT_unregister_command env None s = Inl NullDereference"
proof -
  from assms have "find_slot s None \<noteq> None" by (auto simp: find_slot_None_iff)
  then obtain i where i: "find_slot s None = Some i" by auto
  then have p: "commands_list s i = None" "\<forall>j<i. commands_list s j \<noteq> None"
    by (simp_all add: find_slot_Some_iff)
  from p(2) assms(2) have "i \<le> idx" by (meson not_le_imp_less)
  moreover from i have "AT_unregister_command env None s = Inl NullDereference"
    by (simp add: AT_unregister_command_def)
  ultimately show ?thesis using i p by blast
qed

theorem AT_unregister_command_null_dereference_witness:
  "(0::nat) < AT_COMMAND_LIST_SIZE \<and> commands_list at_ctx_initial 0 = None
   \<and> AT_unregister_command example_env None at_ctx_initial = Inl NullDereference"
  using AT_unregister_command_null_dereference [of 0 at_ctx_initial example_env]
  by (simp add: at_ctx_initial_def)

subsection \<open>The receive interrupt\<close>

text \<open>
  C7. While \<^verbatim>\<open>pending\<close> is set, a received byte of any value, the end marker included,
  is dropped: \<^verbatim>\<open>_rx_irq_callback\<close> leaves the whole context (buffer, size and flags) as
  it is and does not call \<^verbatim>\<open>process_callback\<close>. So does any sequence of bytes: the
  line that is waiting stays the only one.
\<close>

theorem rx_irq_callback_pending_drops:
  assumes "pending (flags s)"
  shows "rx_irq_callback data s = Inr (s, 0) \<and> deliver_bytes bytes s = Inr (s, 0)"
proof -
  from assms have one: "rx_irq_callback d s = Inr (s, 0)" for d
    by (simp add: rx_irq_callback_def)
  have "deliver_bytes bytes s = Inr (s, 0)"
    by (induction bytes) (simp_all add: one)
  with one show ?thesis by simp
qed

theorem rx_irq_callback_pending_drops_witness:
  "pending (flags pending_ctx)
   \<and> rx_irq_callback AT_COMMAND_MARKER_END pending_ctx = Inr (pending_ctx, 0)
   \<and> deliver_bytes [CHR ''A'', CHR ''T'', AT_COMMAND_MARKER_END] pending_ctx
       = Inr (pending_ctx, 0)"
  using rx_irq_callback_pending_drops
    [of pending_ctx AT_COMMAND_MARKER_END "[CHR ''A'', CHR ''T'', AT_COMMAND_MARKER_END]"]
  by (simp add: pending_ctx_def at_ctx_initial_def)

subsection \<open>The parameter list\<close>

lemma split_positions_ne [simp]: "split_positions t \<noteq> []"
  by (cases t) auto

lemma split_positions_no_sep:
  "AT_COMMAND_PARAMETER_SEPARATOR \<notin> set t \<Longrightarrow> split_positions t = [t]"
  by (induction t) auto

lemma split_positions_append:
  "AT_COMMAND_PARAMETER_SEPARATOR \<notin> set a \<Longrightarrow>
   split_positions (a @ AT_COMMAND_PARAMETER_SEPARATOR # r) = a # split_positions r"
  by (induction a) auto

lemma argument_slots_Nil [simp]: "argument_slots [] = []"
  by (simp add: argument_slots_def)

lemma argument_slots_sep [simp]:
  "argument_slots (AT_COMMAND_PARAMETER_SEPARATOR # cs) = None # argument_slots cs"
  by (simp add: argument_slots_def)

lemma argument_slots_token:
  assumes "c \<noteq> AT_COMMAND_PARAMETER_SEPARATOR"
  shows "argument_slots (c # cs) =
           Some (takeWhile (\<lambda>x. x \<noteq> AT_COMMAND_PARAMETER_SEPARATOR) (c # cs))
           # argument_slots (drop 1 (dropWhile (\<lambda>x. x \<noteq> AT_COMMAND_PARAMETER_SEPARATOR) (c # cs)))"
proof (cases "AT_COMMAND_PARAMETER_SEPARATOR \<in> set cs")
  case False
  then have "AT_COMMAND_PARAMETER_SEPARATOR \<notin> set (c # cs)" using assms by simp
  then have sp: "split_positions (c # cs) = [c # cs]" by (rule split_positions_no_sep)
  have tw: "takeWhile (\<lambda>x. x \<noteq> AT_COMMAND_PARAMETER_SEPARATOR) (c # cs) = c # cs"
    using False assms by (auto intro: takeWhile_eq_all_conv [THEN iffD2])
  have dw: "dropWhile (\<lambda>x. x \<noteq> AT_COMMAND_PARAMETER_SEPARATOR) (c # cs) = []"
    using False assms by (auto intro: dropWhile_eq_Nil_conv [THEN iffD2])
  have "argument_slots (c # cs) = [Some (c # cs)]"
    by (simp add: argument_slots_def sp del: split_positions.simps)
  then show ?thesis unfolding tw dw by simp
next
  case True
  then have "AT_COMMAND_PARAMETER_SEPARATOR \<in> set (c # cs)" by simp
  then obtain a r where eq: "c # cs = a @ AT_COMMAND_PARAMETER_SEPARATOR # r"
    and na: "AT_COMMAND_PARAMETER_SEPARATOR \<notin> set a"
    by (meson split_list_first)
  have all: "\<And>x. x \<in> set a \<Longrightarrow> x \<noteq> AT_COMMAND_PARAMETER_SEPARATOR" using na by blast
  have tw: "takeWhile (\<lambda>x. x \<noteq> AT_COMMAND_PARAMETER_SEPARATOR) (c # cs) = a"
    unfolding eq by (simp add: takeWhile_append2 [OF all])
  have dw: "dropWhile (\<lambda>x. x \<noteq> AT_COMMAND_PARAMETER_SEPARATOR) (c # cs)
              = AT_COMMAND_PARAMETER_SEPARATOR # r"
    unfolding eq by (simp add: dropWhile_append2 [OF all])
  have ane: "a \<noteq> []" using eq assms by (cases a) auto
  have sp: "split_positions (c # cs) = a # split_positions r"
    unfolding eq using na by (rule split_positions_append)
  show ?thesis unfolding tw dw
    using ane by (simp add: argument_slots_def sp del: split_positions.simps)
qed

lemma parse_run:
  "length argv + length (argument_slots t) \<le> AT_COMMAND_PARAMETER_MAX_NUMBER \<Longrightarrow>
   (case skip_separators t argv of
      Inl f \<Rightarrow> Inl f
    | Inr (t', argv') \<Rightarrow> parse_parameters_loop t' argv') = Inr (argv @ argument_slots t)"
proof (induction "length t" arbitrary: t argv rule: less_induct)
  case less
  show ?case
  proof (cases t)
    case Nil
    then show ?thesis by (simp add: parse_parameters_loop.simps strtok_r_def)
  next
    case (Cons c cs)
    show ?thesis
    proof (cases "c = AT_COMMAND_PARAMETER_SEPARATOR")
      case True
      with Cons less.prems have "length (argv @ [None]) + length (argument_slots cs) \<le> 10"
        by simp
      from less.hyps [OF _ this] Cons True less.prems show ?thesis by simp
    next
      case False
      define tok where "tok = takeWhile (\<lambda>x. x \<noteq> AT_COMMAND_PARAMETER_SEPARATOR) t"
      define r where "r = drop 1 (dropWhile (\<lambda>x. x \<noteq> AT_COMMAND_PARAMETER_SEPARATOR) t)"
      have sl: "argument_slots t = Some tok # argument_slots r"
        unfolding tok_def r_def Cons using False by (rule argument_slots_token)
      have st: "strtok_r t = Some (tok, r)"
        unfolding tok_def r_def Cons using False by (simp add: strtok_r_def)
      have lr: "length r < length t" using st by (rule strtok_r_length)
      have b: "length (argv @ [Some tok]) + length (argument_slots r) \<le> 10"
        using less.prems sl by simp
      have sk: "skip_separators t argv = Inr (t, argv)" using Cons False by simp
      have "parse_parameters_loop t argv =
              (case skip_separators r (argv @ [Some tok]) of
                 Inl f \<Rightarrow> Inl f
               | Inr (t', argv') \<Rightarrow> parse_parameters_loop t' argv')"
        using b by (subst parse_parameters_loop.simps) (simp add: st)
      also have "\<dots> = Inr ((argv @ [Some tok]) @ argument_slots r)"
        using less.hyps [OF lr b] .
      finally show ?thesis by (simp add: sk sl)
    qed
  qed
qed

lemma length_argument_slots: "length (argument_slots t) \<le> length (split_positions t)"
  by (simp add: argument_slots_def)

text \<open>
  C6. For an argument string of at most 10 positions, the two loops of the write branch
  store exactly the argument slots of the string, in order: each argument, and null for
  each position skipped by a leading separator or by consecutive separators. For
  \<^verbatim>\<open>1,,3\<close> these are the three slots \<^verbatim>\<open>"1"\<close>, null, \<^verbatim>\<open>"3"\<close>.
\<close>

theorem parse_parameters_argument_slots:
  "length (split_positions t) \<le> AT_COMMAND_PARAMETER_MAX_NUMBER \<Longrightarrow>
   parse_parameters t = Inr (argument_slots t)"
  using parse_run [of "[]" t] length_argument_slots [of t]
  by (simp add: parse_parameters_def)

theorem parse_parameters_argument_slots_witness:
  "length (split_positions ''1,,3'') \<le> AT_COMMAND_PARAMETER_MAX_NUMBER
   \<and> parse_parameters ''1,,3'' = Inr [Some ''1'', None, Some ''3'']"
  using parse_parameters_argument_slots [of "''1,,3''"] by (simp add: argument_slots_def)

subsection \<open>Strings in the receive buffer\<close>

lemma c_str_no_NUL: "NUL \<notin> set (c_str t)"
  unfolding c_str_def by (auto dest: set_takeWhileD)

lemma buffer_stringD:
  assumes "buffer_string buf off = Inr content"
  shows "content = takeWhile (\<lambda>c. c \<noteq> NUL) (map buf [off..<AT_BUFFER_SIZE])"
    and "length content < AT_BUFFER_SIZE - off"
    and "buf (off + length content) = NUL"
    and "NUL \<notin> set content"
proof -
  define bytes where "bytes = map buf [off..<AT_BUFFER_SIZE]"
  from assms have nul: "NUL \<in> set bytes"
    and c: "content = takeWhile (\<lambda>c. c \<noteq> NUL) bytes"
    unfolding buffer_string_def bytes_def Let_def by (simp_all split: if_splits)
  show "content = takeWhile (\<lambda>c. c \<noteq> NUL) (map buf [off..<AT_BUFFER_SIZE])"
    using c bytes_def by simp
  have "\<not> (\<forall>c\<in>set bytes. c \<noteq> NUL)" using nul by blast
  then have ne: "takeWhile (\<lambda>c. c \<noteq> NUL) bytes \<noteq> bytes"
    by (simp only: takeWhile_eq_all_conv not_False_eq_True)
  have tk: "content = take (length content) bytes"
    unfolding c by (rule takeWhile_eq_take)
  have le: "length content \<le> length bytes" unfolding c by (rule length_takeWhile_le)
  have lt: "length content < length bytes"
  proof (rule ccontr)
    assume "\<not> length content < length bytes"
    with le have "length content = length bytes" by simp
    with tk have "content = bytes" by simp
    with ne c [symmetric] show False by simp
  qed
  then show "length content < AT_BUFFER_SIZE - off" by (simp add: bytes_def)
  from lt have "\<not> (bytes ! length content \<noteq> NUL)"
    unfolding c by (rule nth_length_takeWhile)
  moreover have "bytes ! length content = buf (off + length content)"
    using lt by (simp add: bytes_def)
  ultimately show "buf (off + length content) = NUL" by simp
  show "NUL \<notin> set content" unfolding c by (auto dest: set_takeWhileD)
qed

lemma memcmp_eq_prefix:
  assumes line: "buffer_string buf off = Inr content"
    and fits: "off + length x \<le> AT_BUFFER_SIZE"
    and x: "NUL \<notin> set x"
  shows "memcmp_eq buf off x (length x) = Inr (prefix x content)"
proof -
  define bytes where "bytes = map buf [off..<AT_BUFFER_SIZE]"
  have c: "content = takeWhile (\<lambda>c. c \<noteq> NUL) bytes"
    using buffer_stringD(1) [OF line] by (simp add: bytes_def)
  have tk: "map buf [off..<off + length x] = take (length x) bytes"
    using fits by (simp add: bytes_def take_map take_upt)
  have "(take (length x) bytes = x) = prefix x content"
  proof
    assume e: "take (length x) bytes = x"
    have nn: "\<And>c. c \<in> set x \<Longrightarrow> c \<noteq> NUL" using x by blast
    have "takeWhile (\<lambda>c. c \<noteq> NUL) (x @ drop (length x) bytes)
            = x @ takeWhile (\<lambda>c. c \<noteq> NUL) (drop (length x) bytes)"
      by (rule takeWhile_append2 [OF nn])
    moreover have "x @ drop (length x) bytes = bytes"
      using append_take_drop_id [of "length x" bytes] e by simp
    ultimately have "content = x @ takeWhile (\<lambda>c. c \<noteq> NUL) (drop (length x) bytes)"
      unfolding c by simp
    then show "prefix x content" by (simp add: prefix_def)
  next
    assume "prefix x content"
    then obtain r where r: "content = x @ r" by (auto simp: prefix_def)
    have t: "content = take (length content) bytes" unfolding c by (rule takeWhile_eq_take)
    have "take (length x) (take (length content) bytes) = take (length x) bytes"
      using r by (simp add: min_def)
    then have "take (length x) content = take (length x) bytes" using t by simp
    then show "take (length x) bytes = x" using r by simp
  qed
  then show ?thesis using fits by (simp add: memcmp_eq_def tk)
qed

lemma buffer_string_drop:
  assumes line: "buffer_string buf off = Inr content" and k: "k \<le> length content"
  shows "buffer_string buf (off + k) = Inr (drop k content)"
proof -
  define bytes where "bytes = map buf [off..<AT_BUFFER_SIZE]"
  define rest where "rest = dropWhile (\<lambda>c. c \<noteq> NUL) bytes"
  have c: "content = takeWhile (\<lambda>c. c \<noteq> NUL) bytes"
    using buffer_stringD(1) [OF line] by (simp add: bytes_def)
  have b: "bytes = content @ rest" unfolding c rest_def by simp
  have len: "length content < length bytes"
    using buffer_stringD(2) [OF line] by (simp add: bytes_def)
  then have "rest \<noteq> []" using b by auto
  moreover have "hd rest = NUL"
    using hd_dropWhile [of "\<lambda>c. c \<noteq> NUL" bytes] \<open>rest \<noteq> []\<close> unfolding rest_def by auto
  ultimately obtain rs where rs: "rest = NUL # rs" by (cases rest) auto
  have d: "map buf [off + k..<AT_BUFFER_SIZE] = drop k bytes"
    by (simp add: bytes_def drop_map drop_upt)
  have dk: "drop k bytes = drop k content @ NUL # rs" using b rs k by simp
  have nn: "\<And>c. c \<in> set (drop k content) \<Longrightarrow> c \<noteq> NUL"
    using buffer_stringD(4) [OF line] in_set_dropD [of _ k content] by blast
  have "takeWhile (\<lambda>c. c \<noteq> NUL) (drop k bytes) = drop k content"
    unfolding dk by (simp add: takeWhile_append2 [OF nn])
  moreover have "NUL \<in> set (drop k bytes)" unfolding dk by simp
  ultimately show ?thesis by (simp add: buffer_string_def d Let_def)
qed

lemma buffer_string_nth:
  assumes line: "buffer_string buf off = Inr content" and k: "k < length content"
  shows "buf (off + k) = content ! k"
proof -
  define bytes where "bytes = map buf [off..<AT_BUFFER_SIZE]"
  have c: "content = takeWhile (\<lambda>c. c \<noteq> NUL) bytes"
    using buffer_stringD(1) [OF line] by (simp add: bytes_def)
  have "content ! k = bytes ! k" using k unfolding c by (rule takeWhile_nth)
  moreover have "k < length bytes" using k buffer_stringD(2) [OF line] by (simp add: bytes_def)
  then have "bytes ! k = buf (off + k)" by (simp add: bytes_def)
  ultimately show ?thesis by simp
qed

subsection \<open>The example contexts\<close>

text \<open>
  The example contexts are the ones \<^verbatim>\<open>AT_init\<close>, \<^verbatim>\<open>AT_register_command\<close> and the
  receive interrupt produce.
\<close>

lemma upt_0_64:
  "[0..<AT_COMMAND_LIST_SIZE] =
     [0, 1, 2, 3, 4, 5, 6, 7, 8, 9, 10, 11, 12, 13, 14, 15, 16, 17, 18, 19, 20, 21,
     22, 23, 24, 25, 26, 27, 28, 29, 30, 31, 32, 33, 34, 35, 36, 37, 38, 39, 40, 41,
     42, 43, 44, 45, 46, 47, 48, 49, 50, 51, 52, 53, 54, 55, 56, 57, 58, 59, 60, 61,
     62, 63]"
  by (simp add: upt_conv_Cons)

lemma AT_init_idle_ctx:
  "AT_HW_API_init env = AT_SUCCESS \<Longrightarrow>
   AT_init env
     \<lparr>default_quiet_flag = of_bool q, default_verbose_flag = of_bool v,
      default_echo_flag = of_bool e, config_process_callback = Some 0\<rparr> at_ctx_initial
   = (AT_SUCCESS, idle_ctx q v e)"
  by (simp add: AT_init_def AT_register_command_def find_slot_def upt_0_64 Option.is_none_def
      at_ctx_initial_def idle_ctx_def AT_COMMAND_ECHO_def AT_COMMAND_VERBOSE_def
      AT_COMMAND_QUIET_def Let_def fun_upd_twist)

lemma user_slots_ctx_empty: "user_slots_ctx None None 0 = idle_ctx False True False"
  by (simp add: user_slots_ctx_def idle_ctx_def fun_eq_iff)

lemma register_example_commands:
  "AT_register_command example_env (Some (User_command 1))
     (snd (AT_register_command example_env (Some (User_command 0)) (idle_ctx q v e)))
   = (AT_SUCCESS, example_idle_ctx q v e)"
  by (simp add: AT_register_command_def find_slot_def upt_0_64 Option.is_none_def
      idle_ctx_def example_idle_ctx_def example_env_def example_command_def fun_upd_twist)

lemma line_buffer_snoc: "line_buffer (t @ [c]) = (line_buffer t)(length t := c)"
  by (auto simp: line_buffer_def fun_eq_iff nth_append)

lemma deliver_bytes_append:
  "deliver_bytes (a @ b) s =
     (case deliver_bytes a s of
        Inl f \<Rightarrow> Inl f
      | Inr (s', n) \<Rightarrow>
          (case deliver_bytes b s' of Inl f \<Rightarrow> Inl f | Inr (s'', m) \<Rightarrow> Inr (s'', n + m)))"
  by (induction a arbitrary: s) (auto split: sum.splits)

lemma deliver_bytes_store:
  assumes "\<not> pending (flags s)" and "NUL \<notin> set t" and "AT_COMMAND_MARKER_END \<notin> set t"
    and "length pre + length t < AT_BUFFER_SIZE"
    and "rx_buffer s = line_buffer pre" and "rx_buffer_size s = of_nat (length pre)"
  shows "deliver_bytes t s =
           Inr (s\<lparr>rx_buffer := line_buffer (pre @ t),
                  rx_buffer_size := of_nat (length (pre @ t))\<rparr>, 0)"
  using assms
proof (induction t arbitrary: s pre)
  case Nil
  then show ?case by simp
next
  case (Cons c t)
  have u: "unat (rx_buffer_size s) = length pre"
    using Cons.prems by (simp add: unat_of_nat)
  define s' where "s' = s\<lparr>rx_buffer := line_buffer (pre @ [c]),
                          rx_buffer_size := of_nat (length (pre @ [c]))\<rparr>"
  have c: "c \<noteq> NUL" "c \<noteq> AT_COMMAND_MARKER_END" using Cons.prems by auto
  have l: "(length pre + 1) mod AT_BUFFER_SIZE = length pre + 1" using Cons.prems by simp
  have step: "rx_irq_callback c s = Inr (s', 0)"
    using Cons.prems(1,4,5) u c l
    by (simp add: rx_irq_callback_def s'_def line_buffer_snoc)
  have "deliver_bytes t s' =
          Inr (s'\<lparr>rx_buffer := line_buffer ((pre @ [c]) @ t),
                  rx_buffer_size := of_nat (length ((pre @ [c]) @ t))\<rparr>, 0)"
    using Cons.prems by (intro Cons.IH) (simp_all add: s'_def)
  then show ?case by (simp add: step s'_def)
qed

lemma deliver_line:
  assumes "\<not> pending (flags s)" and "NUL \<notin> set t" and "AT_COMMAND_MARKER_END \<notin> set t"
    and "length t < AT_BUFFER_SIZE"
    and "rx_buffer s = (\<lambda>idx. NUL)" and "rx_buffer_size s = 0"
  shows "deliver_bytes (t @ [AT_COMMAND_MARKER_END]) s =
           Inr (line_ctx s t, case process_callback s of None \<Rightarrow> 0 | Some cb \<Rightarrow> 1)"
proof -
  have "line_buffer [] = (\<lambda>idx. NUL)" by (simp add: line_buffer_def)
  with assms have "deliver_bytes t s =
      Inr (s\<lparr>rx_buffer := line_buffer ([] @ t), rx_buffer_size := of_nat (length ([] @ t))\<rparr>, 0)"
    by (intro deliver_bytes_store) simp_all
  then show ?thesis using assms(1)
    by (simp add: deliver_bytes_append rx_irq_callback_def line_ctx_def)
qed

lemma deliver_example_line:
  "NUL \<notin> set t \<Longrightarrow> AT_COMMAND_MARKER_END \<notin> set t \<Longrightarrow> length t < AT_BUFFER_SIZE \<Longrightarrow>
   deliver_bytes (t @ [AT_COMMAND_MARKER_END]) ((example_idle_ctx q v e)\<lparr>current_command := c\<rparr>)
     = Inr (line_ctx ((example_idle_ctx q v e)\<lparr>current_command := c\<rparr>) t, 1)"
  "NUL \<notin> set t \<Longrightarrow> AT_COMMAND_MARKER_END \<notin> set t \<Longrightarrow> length t < AT_BUFFER_SIZE \<Longrightarrow>
   deliver_bytes (t @ [AT_COMMAND_MARKER_END]) ((idle_ctx q v e)\<lparr>current_command := c\<rparr>)
     = Inr (line_ctx ((idle_ctx q v e)\<lparr>current_command := c\<rparr>) t, 1)"
  by (subst deliver_line; simp add: example_idle_ctx_def idle_ctx_def)+

lemma buffer_string_line_buffer:
  assumes "NUL \<notin> set t" and "length t < AT_BUFFER_SIZE" and "off \<le> length t"
  shows "buffer_string (line_buffer t) off = Inr (drop off t)"
proof -
  have m: "map (line_buffer t) [off..<AT_BUFFER_SIZE]
             = drop off t @ replicate (AT_BUFFER_SIZE - length t) NUL"
    using assms(2,3)
    by (auto intro!: nth_equalityI simp: line_buffer_def nth_append)
  have nn: "\<And>c. c \<in> set (drop off t) \<Longrightarrow> c \<noteq> NUL"
    using assms(1) in_set_dropD [of _ off t] by blast
  have r: "replicate (AT_BUFFER_SIZE - length t) NUL
             = NUL # replicate (AT_BUFFER_SIZE - length t - 1) NUL"
    using assms(2) by (cases "AT_BUFFER_SIZE - length t") simp_all
  have "takeWhile (\<lambda>c. c \<noteq> NUL) (drop off t @ replicate (AT_BUFFER_SIZE - length t) NUL)
          = drop off t"
    by (subst r) (simp add: takeWhile_append2 [OF nn])
  moreover have "NUL \<in> set (drop off t @ replicate (AT_BUFFER_SIZE - length t) NUL)"
    by (subst r) simp
  ultimately show ?thesis by (simp add: buffer_string_def m Let_def)
qed

lemma registered_commands_example:
  "registered_commands (line_ctx (example_idle_ctx q v e) line) =
     [AT_COMMAND_ECHO_ref, AT_COMMAND_VERBOSE_ref, AT_COMMAND_QUIET_ref,
      User_command 0, User_command 1]"
  by (simp add: registered_commands_def upt_0_64 line_ctx_def
      example_idle_ctx_def idle_ctx_def)

lemmas at_eval =
  AT_process_def AT_process_echo_def AT_process_command_def AT_process_help_def
  AT_process_errors_def parse_and_execute_command_def execute_command_def
  print_command_status_def print_status_buffer_def command_status_text_def
  print_def print_tab_def end_line_def print_line_def print_ptr_def print_line_ptr_def
  print_help_def print_help_command_def print_command_header_def AT_COMMAND_HEADER_def
  memcmp_eq_def c_str_def strlen_def snprintf_tx_buffer_def
  format_d_def format_02X_def format_ld_def digit_char_def print_dec.simps print_hex.simps
  parse_parameters_def parse_parameters_loop.simps strtok_r_def
  parse_bit_def sscanf_d_def isspace_def isdigit_def digit_value_def decimal_value_def
  echo_execution_callback_def echo_write_callback_def verbose_execution_callback_def
  verbose_write_callback_def quiet_execution_callback_def quiet_write_callback_def
  AT_COMMAND_ECHO_def AT_COMMAND_VERBOSE_def AT_COMMAND_QUIET_def
  example_env_def example_command_def example_hw_def example_id_read_callback_def
  example_rst_execution_callback_def
  line_ctx_def idle_ctx_def example_idle_ctx_def
  buffer_string_line_buffer upt_0_64 Let_def

lemma line_buffer_nth [simp]: "line_buffer t idx = (if idx < length t then t ! idx else NUL)"
  by (simp add: line_buffer_def)

lemma cleared_line_buffer [simp]:
  "length t < AT_BUFFER_SIZE \<Longrightarrow>
   (\<lambda>idx. if idx < AT_BUFFER_SIZE then NUL else line_buffer t idx) = (\<lambda>idx. NUL)"
  by (auto simp: fun_eq_iff)

subsection \<open>The dispatcher\<close>

lemma search_command_find:
  assumes line: "buffer_string (rx_buffer s) off = Inr content"
    and fits: "\<forall>cmd\<in>set (List.map_filter (commands_list s) idxs).
                 type (command_at env cmd) = t \<longrightarrow>
                 off + strlen (syntax_str (command_at env cmd)) \<le> AT_BUFFER_SIZE"
  shows "search_command env s off t idxs =
           Inr (map_option (\<lambda>cmd. (cmd, strlen (syntax_str (command_at env cmd))))
                  (List.find (\<lambda>cmd. type (command_at env cmd) = t
                                   \<and> prefix (c_str (syntax_str (command_at env cmd))) content)
                     (List.map_filter (commands_list s) idxs)))"
  using fits
proof (induction idxs)
  case Nil
  then show ?case by (simp add: map_filter_simps)
next
  case (Cons idx idxs)
  show ?case
  proof (cases "commands_list s idx")
    case None
    with Cons show ?thesis by (simp add: map_filter_simps)
  next
    case (Some cmd)
    with Cons.prems have rest: "\<forall>cmd\<in>set (List.map_filter (commands_list s) idxs).
                 type (command_at env cmd) = t \<longrightarrow>
                 off + strlen (syntax_str (command_at env cmd)) \<le> AT_BUFFER_SIZE"
      by (simp add: map_filter_simps)
    note IH = Cons.IH [OF rest]
    show ?thesis
    proof (cases "type (command_at env cmd) = t")
      case False
      with Some IH show ?thesis by (simp add: map_filter_simps)
    next
      case True
      with Some Cons.prems
      have "off + length (c_str (syntax_str (command_at env cmd))) \<le> AT_BUFFER_SIZE"
        by (simp add: map_filter_simps strlen_def)
      from memcmp_eq_prefix [OF line this c_str_no_NUL]
      have m: "memcmp_eq (rx_buffer s) off (c_str (syntax_str (command_at env cmd)))
                 (strlen (syntax_str (command_at env cmd)))
               = Inr (prefix (c_str (syntax_str (command_at env cmd))) content)"
        by (simp add: strlen_def)
      show ?thesis using Some True IH by (simp add: map_filter_simps m)
    qed
  qed
qed

lemma execute_command_call_form:
  assumes line: "buffer_string (rx_buffer s) off = Inr content"
    and n: "n \<le> length content"
  shows "execute_command env off t code cmd n s
           = call_form t code (command_at env cmd) (drop n content) s"
proof -
  have inb: "\<not> AT_BUFFER_SIZE \<le> off + n"
    using buffer_stringD(2) [OF line] n by simp
  show ?thesis
  proof (cases "n = length content")
    case True
    then have "rx_buffer s (off + n) = NUL" using buffer_stringD(3) [OF line] by simp
    then show ?thesis using inb True by (simp add: execute_command_def call_form_def)
  next
    case False
    with n have lt: "n < length content" by simp
    then have d: "drop n content = content ! n # drop (Suc n) content"
      by (simp add: Cons_nth_drop_Suc)
    have m: "rx_buffer s (off + n) = content ! n" using line lt by (rule buffer_string_nth)
    have nz: "content ! n \<noteq> NUL"
      using buffer_stringD(4) [OF line] lt by (metis nth_mem)
    have b0: "buffer_string (rx_buffer s) (off + n) = Inr (content ! n # drop (Suc n) content)"
      using buffer_string_drop [OF line n] d by simp
    have b1: "buffer_string (rx_buffer s) (off + n + 1) = Inr (drop (Suc n) content)"
      using buffer_string_drop [OF line, of "Suc n"] lt by simp
    show ?thesis
      unfolding d using inb m nz b0 b1
      by (simp add: execute_command_def call_form_def split: option.splits)
  qed
qed

lemma first_match_prefix:
  "first_match env s t content = Some cmd \<Longrightarrow>
   type (command_at env cmd) = t \<and> prefix (c_str (syntax_str (command_at env cmd))) content
   \<and> cmd \<in> set (registered_commands s)"
  unfolding first_match_def by (auto simp: find_Some_iff)

lemma map_filter_upt_take:
  assumes "\<forall>i<n. f i = (if i < length cmds then Some (cmds ! i) else None)"
  shows "List.map_filter f [0..<n] = take n cmds"
  using assms
proof (induction n)
  case 0
  then show ?case by (simp add: map_filter_simps)
next
  case (Suc n)
  then have IH: "List.map_filter f [0..<n] = take n cmds" by simp
  have fn: "f n = (if n < length cmds then Some (cmds ! n) else None)" using Suc.prems by simp
  have "List.map_filter f [0..<Suc n] = List.map_filter f [0..<n] @ List.map_filter f [n]"
    by (simp add: map_filter_def)
  then show ?case
    using IH fn by (simp add: map_filter_simps take_Suc_conv_app_nth)
qed

text \<open>The list holds \<open>cmds\<close> in its first slots, in this order, and nothing else.\<close>

lemma registered_commands_packed:
  assumes "\<forall>i<AT_COMMAND_LIST_SIZE.
             commands_list s i = (if i < length cmds then Some (cmds ! i) else None)"
    and "length cmds \<le> AT_COMMAND_LIST_SIZE"
  shows "registered_commands s = cmds"
  using map_filter_upt_take [OF assms(1)] assms(2) by (simp add: registered_commands_def)

lemma AT_register_command_packed:
  assumes p: "\<forall>i<AT_COMMAND_LIST_SIZE.
             commands_list s i = (if i < length cmds then Some (cmds ! i) else None)"
    and l: "length cmds < AT_COMMAND_LIST_SIZE"
    and fresh: "cmd \<notin> set cmds"
    and ok: "registrable (command_at env cmd)"
  shows "\<forall>i<AT_COMMAND_LIST_SIZE.
           commands_list (snd (AT_register_command env (Some cmd) s)) i
             = (if i < length (cmds @ [cmd]) then Some ((cmds @ [cmd]) ! i) else None)"
proof -
  have f1: "find_slot s (Some cmd) = None"
    using p fresh by (auto simp: find_slot_None_iff)
  have f2: "find_slot s None = Some (length cmds)"
    using p l by (simp add: find_slot_Some_iff)
  have r: "snd (AT_register_command env (Some cmd) s) =
      s\<lparr>commands_list := (commands_list s)(length cmds := Some cmd),
        commands_count := (commands_count s)
          (type_value (type (command_at env cmd)) :=
             commands_count s (type_value (type (command_at env cmd))) + 1)\<rparr>"
    using ok by (auto simp: AT_register_command_def f1 f2 registrable_def)
  show ?thesis unfolding r using p by (auto simp: nth_append)
qed

lemma register_all_packed:
  assumes "\<forall>i<AT_COMMAND_LIST_SIZE.
             commands_list s i = (if i < length pre then Some (pre ! i) else None)"
    and "length (pre @ cmds) \<le> AT_COMMAND_LIST_SIZE"
    and "distinct (pre @ cmds)"
    and "\<forall>cmd\<in>set cmds. registrable (command_at env cmd)"
  shows "\<forall>i<AT_COMMAND_LIST_SIZE.
           commands_list (register_all env cmds s) i
             = (if i < length (pre @ cmds) then Some ((pre @ cmds) ! i) else None)"
  using assms
proof (induction cmds arbitrary: s pre)
  case Nil
  then show ?case by simp
next
  case (Cons cmd cmds)
  have "\<forall>i<AT_COMMAND_LIST_SIZE.
           commands_list (snd (AT_register_command env (Some cmd) s)) i
             = (if i < length (pre @ [cmd]) then Some ((pre @ [cmd]) ! i) else None)"
    using Cons.prems by (intro AT_register_command_packed) simp_all
  from Cons.IH [OF this] Cons.prems show ?case by simp
qed

lemma registered_commands_register_all:
  assumes "commands_list s0 = (\<lambda>idx. None)"
    and "distinct cmds" and "length cmds \<le> AT_COMMAND_LIST_SIZE"
    and "\<forall>cmd\<in>set cmds. registrable (command_at env cmd)"
    and "commands_list s = commands_list (register_all env cmds s0)"
  shows "registered_commands s = cmds"
proof -
  have "\<forall>i<AT_COMMAND_LIST_SIZE.
           commands_list (register_all env cmds s0) i
             = (if i < length ([] @ cmds) then Some (([] @ cmds) ! i) else None)"
    using assms by (intro register_all_packed) simp_all
  with assms(5) have "\<forall>i<AT_COMMAND_LIST_SIZE.
           commands_list s i = (if i < length cmds then Some (cmds ! i) else None)"
    by simp
  then show ?thesis using assms(3) by (rule registered_commands_packed)
qed


text \<open>
  C4, as the code has it. After \<^verbatim>\<open>AT_init\<close>, \<^verbatim>\<open>AT$TMP\<close> and \<^verbatim>\<open>AT$ID\<close> are
  registered, \<^verbatim>\<open>AT$TMP\<close> is unregistered, then \<^verbatim>\<open>AT$I\<close> is registered: it takes the
  slot that was freed, in front of \<^verbatim>\<open>AT$ID\<close>. Both are of type Extended and both
  syntaxes start the content \<^verbatim>\<open>ID?\<close>. The first match in the order of registration
  is \<^verbatim>\<open>AT$ID\<close>, which has a read callback; the dispatcher takes \<^verbatim>\<open>AT$I\<close>,
  registered last, and fails on the marker.
\<close>

theorem registration_order_counterexample:
  "user_slots_ctx None None 0 = idle_ctx False True False
   \<and> AT_register_command shadow_env (Some (User_command 0)) (user_slots_ctx None None 0)
       = (AT_SUCCESS, user_slots_ctx (Some (User_command 0)) None 1)
   \<and> AT_register_command shadow_env (Some (User_command 1))
         (user_slots_ctx (Some (User_command 0)) None 1)
       = (AT_SUCCESS, user_slots_ctx (Some (User_command 0)) (Some (User_command 1)) 2)
   \<and> AT_unregister_command shadow_env (Some (User_command 0))
         (user_slots_ctx (Some (User_command 0)) (Some (User_command 1)) 2)
       = Inr (AT_SUCCESS, user_slots_ctx None (Some (User_command 1)) 1)
   \<and> AT_register_command shadow_env (Some (User_command 2))
         (user_slots_ctx None (Some (User_command 1)) 1)
       = (AT_SUCCESS, user_slots_ctx (Some (User_command 2)) (Some (User_command 1)) 2)
   \<and> registered_commands
         (line_ctx (user_slots_ctx (Some (User_command 2)) (Some (User_command 1)) 2) ''AT$ID?'')
       = [AT_COMMAND_ECHO_ref, AT_COMMAND_VERBOSE_ref, AT_COMMAND_QUIET_ref,
          User_command 2, User_command 1]
   \<and> type (command_at shadow_env (User_command 1)) = AT_COMMAND_TYPE_EXTENDED
   \<and> prefix (c_str (syntax_str (command_at shadow_env (User_command 1)))) ''ID?''
   \<and> type (command_at shadow_env (User_command 2)) = AT_COMMAND_TYPE_EXTENDED
   \<and> prefix (c_str (syntax_str (command_at shadow_env (User_command 2)))) ''ID?''
   \<and> parse_and_execute_command shadow_env 3 AT_COMMAND_TYPE_EXTENDED 0
         (line_ctx (user_slots_ctx (Some (User_command 2)) (Some (User_command 1)) 2) ''AT$ID?'')
       = Inr (AT_ERROR_INTERNAL_COMMAND_MARKER_NOT_DEFINED, 0,
              (line_ctx (user_slots_ctx (Some (User_command 2)) (Some (User_command 1)) 2)
                 ''AT$ID?'')\<lparr>current_command := Some (User_command 2)\<rparr>, [])
   \<and> AT_process shadow_env
         (line_ctx (user_slots_ctx (Some (User_command 2)) (Some (User_command 1)) 2) ''AT$ID?'')
       = Inr (AT_ERROR_INTERNAL_COMMAND_MARKER_NOT_DEFINED,
              (user_slots_ctx (Some (User_command 2)) (Some (User_command 1)) 2)
                \<lparr>current_command := Some (User_command 2)\<rparr>,
              [Command_status AT_ERROR_INTERNAL_COMMAND_MARKER_NOT_DEFINED 0,
               Write ''ERROR:'', Write ''COMMAND_MARKER_NOT_DEFINED'', Write AT_REPLY_END])"
proof -
  let ?s = "line_ctx (user_slots_ctx (Some (User_command 2)) (Some (User_command 1)) 2) ''AT$ID?''"
  have r1: "AT_register_command shadow_env (Some (User_command 0)) (user_slots_ctx None None 0)
     = (AT_SUCCESS, user_slots_ctx (Some (User_command 0)) None 1)"
    by (simp add: AT_register_command_def find_slot_def upt_0_64 Option.is_none_def
        user_slots_ctx_def idle_ctx_def shadow_env_def shadow_command_def fun_eq_iff)
  have r2: "AT_register_command shadow_env (Some (User_command 1))
         (user_slots_ctx (Some (User_command 0)) None 1)
       = (AT_SUCCESS, user_slots_ctx (Some (User_command 0)) (Some (User_command 1)) 2)"
    by (simp add: AT_register_command_def find_slot_def upt_0_64 Option.is_none_def
        user_slots_ctx_def idle_ctx_def shadow_env_def shadow_command_def fun_eq_iff)
  have u: "AT_unregister_command shadow_env (Some (User_command 0))
         (user_slots_ctx (Some (User_command 0)) (Some (User_command 1)) 2)
       = Inr (AT_SUCCESS, user_slots_ctx None (Some (User_command 1)) 1)"
    by (simp add: AT_unregister_command_def find_slot_def upt_0_64
        user_slots_ctx_def idle_ctx_def shadow_env_def shadow_command_def fun_eq_iff)
  have r3: "AT_register_command shadow_env (Some (User_command 2))
         (user_slots_ctx None (Some (User_command 1)) 1)
       = (AT_SUCCESS, user_slots_ctx (Some (User_command 2)) (Some (User_command 1)) 2)"
    by (simp add: AT_register_command_def find_slot_def upt_0_64 Option.is_none_def
        user_slots_ctx_def idle_ctx_def shadow_env_def shadow_command_def fun_eq_iff)
  have regs: "registered_commands ?s
       = [AT_COMMAND_ECHO_ref, AT_COMMAND_VERBOSE_ref, AT_COMMAND_QUIET_ref,
          User_command 2, User_command 1]"
    by (simp add: registered_commands_def upt_0_64 line_ctx_def user_slots_ctx_def idle_ctx_def)
  have order: "type (command_at shadow_env (User_command 1)) = AT_COMMAND_TYPE_EXTENDED"
    "prefix (c_str (syntax_str (command_at shadow_env (User_command 1)))) ''ID?''"
    "type (command_at shadow_env (User_command 2)) = AT_COMMAND_TYPE_EXTENDED"
    "prefix (c_str (syntax_str (command_at shadow_env (User_command 2)))) ''ID?''"
    by (simp_all add: shadow_env_def shadow_command_def c_str_def)
  have run: "parse_and_execute_command shadow_env 3 AT_COMMAND_TYPE_EXTENDED 0 ?s
       = Inr (AT_ERROR_INTERNAL_COMMAND_MARKER_NOT_DEFINED, 0,
              ?s\<lparr>current_command := Some (User_command 2)\<rparr>, [])"
    by (simp add: at_eval user_slots_ctx_def shadow_env_def shadow_command_def fun_eq_iff)
  have pass: "AT_process shadow_env ?s
       = Inr (AT_ERROR_INTERNAL_COMMAND_MARKER_NOT_DEFINED,
              (user_slots_ctx (Some (User_command 2)) (Some (User_command 1)) 2)
                \<lparr>current_command := Some (User_command 2)\<rparr>,
              [Command_status AT_ERROR_INTERNAL_COMMAND_MARKER_NOT_DEFINED 0,
               Write ''ERROR:'', Write ''COMMAND_MARKER_NOT_DEFINED'', Write AT_REPLY_END])"
    by (simp add: at_eval user_slots_ctx_def shadow_env_def shadow_command_def fun_eq_iff)
  from user_slots_ctx_empty r1 r2 u r3 regs order run pass show ?thesis
    by (simp only: simp_thms)
qed

text \<open>
  C4, amended. For a line whose content starts at \<^verbatim>\<open>&rx_buffer[off]\<close> and a type \<open>t\<close>,
  with every registered syntax of that type short enough to be compared inside the buffer,
  \<^verbatim>\<open>_parse_and_execute_command\<close> goes through the slots in ascending order, skips
  the empty ones and those of another type, and takes the first descriptor whose syntax is
  a prefix, byte for byte, of the content. With no such descriptor the result is
  \<^verbatim>\<open>AT_ERROR_INTERNAL_COMMAND_NOT_FOUND\<close>, nothing is sent and the context is
  unchanged but for \<^verbatim>\<open>current_command\<close>, which is null: no callback has run. The order
  of the slots is the order of registration when the list was built from the empty list by
  registrations alone, without any \<^verbatim>\<open>AT_unregister_command\<close>.
\<close>

theorem parse_and_execute_command_first_match:
  assumes line: "buffer_string (rx_buffer s) off = Inr content"
    and fits: "\<forall>cmd\<in>set (registered_commands s).
                 type (command_at env cmd) = t \<longrightarrow>
                 off + strlen (syntax_str (command_at env cmd)) \<le> AT_BUFFER_SIZE"
  shows "parse_and_execute_command env off t code s =
           (case first_match env s t content of
              None \<Rightarrow>
                Inr (AT_ERROR_INTERNAL_COMMAND_NOT_FOUND, code, s\<lparr>current_command := None\<rparr>, [])
            | Some cmd \<Rightarrow>
                execute_command env off t code cmd (strlen (syntax_str (command_at env cmd)))
                  (s\<lparr>current_command := Some cmd\<rparr>))
     \<and> (\<forall>cmds s0.
           commands_list s0 = (\<lambda>idx. None) \<longrightarrow> distinct cmds \<longrightarrow>
           length cmds \<le> AT_COMMAND_LIST_SIZE \<longrightarrow>
           (\<forall>cmd\<in>set cmds. registrable (command_at env cmd)) \<longrightarrow>
           commands_list s = commands_list (register_all env cmds s0) \<longrightarrow>
           registered_commands s = cmds)"
proof -
  have "search_command env (s\<lparr>current_command := None\<rparr>) off t [0..<AT_COMMAND_LIST_SIZE] =
          Inr (map_option (\<lambda>cmd. (cmd, strlen (syntax_str (command_at env cmd))))
                 (first_match env s t content))"
    unfolding first_match_def registered_commands_def
    using search_command_find [of "s\<lparr>current_command := None\<rparr>" off content "[0..<AT_COMMAND_LIST_SIZE]" env t]
      line fits
    by (simp add: registered_commands_def)
  then have "parse_and_execute_command env off t code s =
           (case first_match env s t content of
              None \<Rightarrow>
                Inr (AT_ERROR_INTERNAL_COMMAND_NOT_FOUND, code, s\<lparr>current_command := None\<rparr>, [])
            | Some cmd \<Rightarrow>
                execute_command env off t code cmd (strlen (syntax_str (command_at env cmd)))
                  (s\<lparr>current_command := Some cmd\<rparr>))"
    by (simp add: parse_and_execute_command_def split: option.splits)
  moreover have "\<forall>cmds s0.
           commands_list s0 = (\<lambda>idx. None) \<longrightarrow> distinct cmds \<longrightarrow>
           length cmds \<le> AT_COMMAND_LIST_SIZE \<longrightarrow>
           (\<forall>cmd\<in>set cmds. registrable (command_at env cmd)) \<longrightarrow>
           commands_list s = commands_list (register_all env cmds s0) \<longrightarrow>
           registered_commands s = cmds"
    using registered_commands_register_all by blast
  ultimately show ?thesis by (rule conjI)
qed

theorem parse_and_execute_command_first_match_witness:
  "buffer_string
       (rx_buffer (line_ctx (user_slots_ctx (Some (User_command 1)) (Some (User_command 2)) 2)
                     ''AT$ID?'')) 3
     = Inr ''ID?''
   \<and> commands_list (line_ctx (user_slots_ctx (Some (User_command 1)) (Some (User_command 2)) 2)
                       ''AT$ID?'')
       = commands_list
           (register_all shadow_env
              [AT_COMMAND_ECHO_ref, AT_COMMAND_VERBOSE_ref, AT_COMMAND_QUIET_ref,
               User_command 1, User_command 2] at_ctx_initial)
   \<and> registered_commands
         (line_ctx (user_slots_ctx (Some (User_command 1)) (Some (User_command 2)) 2) ''AT$ID?'')
       = [AT_COMMAND_ECHO_ref, AT_COMMAND_VERBOSE_ref, AT_COMMAND_QUIET_ref,
          User_command 1, User_command 2]
   \<and> first_match shadow_env
         (line_ctx (user_slots_ctx (Some (User_command 1)) (Some (User_command 2)) 2) ''AT$ID?'')
         AT_COMMAND_TYPE_EXTENDED ''ID?'' = Some (User_command 1)
   \<and> prefix (c_str (syntax_str (command_at shadow_env (User_command 2)))) ''ID?''
   \<and> parse_and_execute_command shadow_env 3 AT_COMMAND_TYPE_EXTENDED 0
         (line_ctx (user_slots_ctx (Some (User_command 1)) (Some (User_command 2)) 2) ''AT$ID?'')
       = Inr (AT_SUCCESS, 0,
              (line_ctx (user_slots_ctx (Some (User_command 1)) (Some (User_command 2)) 2)
                 ''AT$ID?'')\<lparr>current_command := Some (User_command 1)\<rparr>,
              [''$ID:42'', AT_REPLY_END])"
proof -
  let ?s = "line_ctx (user_slots_ctx (Some (User_command 1)) (Some (User_command 2)) 2) ''AT$ID?''"
  let ?cmds = "[AT_COMMAND_ECHO_ref, AT_COMMAND_VERBOSE_ref, AT_COMMAND_QUIET_ref,
               User_command 1, User_command 2]"
  have line: "buffer_string (rx_buffer ?s) 3 = Inr ''ID?''"
    by (simp add: line_ctx_def buffer_string_line_buffer)
  have built: "commands_list ?s = commands_list (register_all shadow_env ?cmds at_ctx_initial)"
    by (simp add: AT_register_command_def find_slot_def upt_0_64 Option.is_none_def
        at_ctx_initial_def line_ctx_def user_slots_ctx_def idle_ctx_def shadow_env_def
        shadow_command_def AT_COMMAND_ECHO_def AT_COMMAND_VERBOSE_def AT_COMMAND_QUIET_def
        fun_eq_iff)
  have ok: "\<forall>cmd\<in>set ?cmds. registrable (command_at shadow_env cmd)"
    by (simp add: registrable_def Option.is_none_def shadow_env_def shadow_command_def
        AT_COMMAND_ECHO_def AT_COMMAND_VERBOSE_def AT_COMMAND_QUIET_def)
  have fits: "\<forall>cmd\<in>set (registered_commands ?s).
         type (command_at shadow_env cmd) = AT_COMMAND_TYPE_EXTENDED \<longrightarrow>
         3 + strlen (syntax_str (command_at shadow_env cmd)) \<le> AT_BUFFER_SIZE"
    by (simp add: registered_commands_def upt_0_64 line_ctx_def user_slots_ctx_def idle_ctx_def
        shadow_env_def shadow_command_def
        AT_COMMAND_ECHO_def AT_COMMAND_VERBOSE_def AT_COMMAND_QUIET_def strlen_def c_str_def)
  note disp = parse_and_execute_command_first_match [OF line fits, of 0]
  have empty: "commands_list at_ctx_initial = (\<lambda>idx. None)" by (simp add: at_ctx_initial_def)
  have d: "distinct ?cmds" and l: "length ?cmds \<le> AT_COMMAND_LIST_SIZE" by simp_all
  have regs: "registered_commands ?s = ?cmds"
    by (rule conjunct2 [OF disp, THEN spec, THEN spec, THEN mp, THEN mp, THEN mp, THEN mp,
          THEN mp, OF empty d l ok built])
  have fm: "first_match shadow_env ?s AT_COMMAND_TYPE_EXTENDED ''ID?'' = Some (User_command 1)"
    unfolding first_match_def regs
    by (simp add: AT_COMMAND_ECHO_def AT_COMMAND_VERBOSE_def
        AT_COMMAND_QUIET_def shadow_env_def shadow_command_def c_str_def)
  have also_matches: "prefix (c_str (syntax_str (command_at shadow_env (User_command 2)))) ''ID?''"
    by (simp add: shadow_env_def shadow_command_def c_str_def)
  have run: "parse_and_execute_command shadow_env 3 AT_COMMAND_TYPE_EXTENDED 0 ?s
       = Inr (AT_SUCCESS, 0, ?s\<lparr>current_command := Some (User_command 1)\<rparr>,
              [''$ID:42'', AT_REPLY_END])"
    unfolding conjunct1 [OF disp] fm
    by (simp add: at_eval user_slots_ctx_def shadow_env_def shadow_command_def fun_eq_iff)
  from line built regs fm also_matches run show ?thesis by (simp only: simp_thms)
qed

text \<open>
  C5. When the prefix of the line matched the descriptor \<open>cmd\<close>, the character after
  the matched prefix selects the call form: the end of the line the execution callback,
  \<^verbatim>\<open>?\<close> the read callback, \<^verbatim>\<open>=\<close> or the type Basic the write callback on the
  tokenized remainder (behind the \<^verbatim>\<open>=\<close>, or for Basic behind the prefix), each with
  its own error when the callback is null, and any other character
  \<^verbatim>\<open>AT_ERROR_INTERNAL_COMMAND_MARKER_NOT_DEFINED\<close>.
\<close>

theorem parse_and_execute_command_call_form:
  assumes line: "buffer_string (rx_buffer s) off = Inr content"
    and fits: "\<forall>cmd\<in>set (registered_commands s).
                 type (command_at env cmd) = t \<longrightarrow>
                 off + strlen (syntax_str (command_at env cmd)) \<le> AT_BUFFER_SIZE"
    and found: "first_match env s t content = Some cmd"
  shows "parse_and_execute_command env off t code s =
           call_form t code (command_at env cmd)
             (drop (strlen (syntax_str (command_at env cmd))) content)
             (s\<lparr>current_command := Some cmd\<rparr>)"
proof -
  have "search_command env (s\<lparr>current_command := None\<rparr>) off t [0..<AT_COMMAND_LIST_SIZE] =
          Inr (map_option (\<lambda>cmd. (cmd, strlen (syntax_str (command_at env cmd))))
                 (first_match env s t content))"
    unfolding first_match_def registered_commands_def
    using search_command_find [of "s\<lparr>current_command := None\<rparr>" off content "[0..<AT_COMMAND_LIST_SIZE]" env t]
      line fits
    by (simp add: registered_commands_def)
  then have p: "parse_and_execute_command env off t code s =
      execute_command env off t code cmd (strlen (syntax_str (command_at env cmd)))
                  (s\<lparr>current_command := Some cmd\<rparr>)"
    using found by (simp add: parse_and_execute_command_def)
  have "prefix (c_str (syntax_str (command_at env cmd))) content"
    using first_match_prefix [OF found] by simp
  then have n: "strlen (syntax_str (command_at env cmd)) \<le> length content"
    by (simp add: strlen_def prefix_length_le)
  have l: "buffer_string (rx_buffer (s\<lparr>current_command := Some cmd\<rparr>)) off = Inr content"
    using line by simp
  show ?thesis unfolding p by (rule execute_command_call_form [OF l n])
qed

theorem parse_and_execute_command_call_form_witness:
  "buffer_string (rx_buffer (line_ctx (example_idle_ctx False True False) ''AT$ID?'')) 3
     = Inr ''ID?''
   \<and> registered_commands (line_ctx (example_idle_ctx False True False) ''AT$ID?'')
       = [AT_COMMAND_ECHO_ref, AT_COMMAND_VERBOSE_ref, AT_COMMAND_QUIET_ref,
          User_command 0, User_command 1]
   \<and> first_match example_env (line_ctx (example_idle_ctx False True False) ''AT$ID?'')
         AT_COMMAND_TYPE_EXTENDED ''ID?'' = Some (User_command 0)
   \<and> parse_and_execute_command example_env 3 AT_COMMAND_TYPE_EXTENDED 0
         (line_ctx (example_idle_ctx False True False) ''AT$ID?'')
       = Inr (AT_SUCCESS, 0,
              (line_ctx (example_idle_ctx False True False) ''AT$ID?'')
                \<lparr>current_command := Some (User_command 0)\<rparr>,
              [''$ID:42'', AT_REPLY_END])"
proof -
  let ?s = "line_ctx (example_idle_ctx False True False) ''AT$ID?''"
  have line: "buffer_string (rx_buffer ?s) 3 = Inr ''ID?''"
    by (simp add: line_ctx_def buffer_string_line_buffer)
  have fits: "\<forall>cmd\<in>set (registered_commands ?s).
         type (command_at example_env cmd) = AT_COMMAND_TYPE_EXTENDED \<longrightarrow>
         3 + strlen (syntax_str (command_at example_env cmd)) \<le> AT_BUFFER_SIZE"
    by (simp add: registered_commands_example example_env_def example_command_def
        AT_COMMAND_ECHO_def AT_COMMAND_VERBOSE_def AT_COMMAND_QUIET_def strlen_def c_str_def)
  have fm: "first_match example_env ?s AT_COMMAND_TYPE_EXTENDED ''ID?'' = Some (User_command 0)"
    by (simp add: first_match_def registered_commands_example AT_COMMAND_ECHO_def
        AT_COMMAND_VERBOSE_def AT_COMMAND_QUIET_def example_env_def example_command_def
        c_str_def)
  have "parse_and_execute_command example_env 3 AT_COMMAND_TYPE_EXTENDED 0 ?s
       = Inr (AT_SUCCESS, 0, ?s\<lparr>current_command := Some (User_command 0)\<rparr>,
              [''$ID:42'', AT_REPLY_END])"
    using parse_and_execute_command_call_form [OF line fits fm, of 0]
    by (simp add: call_form_def example_env_def example_command_def strlen_def c_str_def
        example_id_read_callback_def print_line_def print_def print_tab_def end_line_def
        example_hw_def line_ctx_def example_idle_ctx_def idle_ctx_def)
  with line registered_commands_example [of False True False "''AT$ID?''"] fm
  show ?thesis by blast
qed

subsection \<open>The commands E, V and Q\<close>

lemma parse_bit_negative:
  assumes "sscanf_d a = Some v" and "v < 0" and "- (2 ^ 31) \<le> v"
  shows "parse_bit 1 [Some a] b = Inr (AT_SUCCESS, of_int v)"
  using assms by (simp add: parse_bit_def)

lemma bit0_of_int: "bit (of_int v :: 8 word) 0 = odd (v mod 2 ^ 8)"
proof -
  have "bit (of_int v :: 8 word) 0 = bit v 0"
    by (simp only: bit_word_of_int_iff) simp
  also have "\<dots> = odd v" by (simp add: bit_0)
  also have "\<dots> = odd (v mod 2 ^ 8)"
  proof -
    have "(2::int) dvd 2 ^ 8" by simp
    then have "v mod 2 ^ 8 mod 2 = v mod 2" by (rule mod_mod_cancel)
    then show ?thesis by (simp add: even_iff_mod_2_eq_zero)
  qed
  finally show ?thesis .
qed

text \<open>
  C10. \<^verbatim>\<open>_parse_bit\<close> rejects values above 1 only: for a single argument that
  \<^verbatim>\<open>sscanf\<close> reads as a negative \<^verbatim>\<open>int\<close>, the write callbacks of E, V and Q return
  \<^verbatim>\<open>AT_SUCCESS\<close> and set their flag to the lowest bit of the value reduced modulo
  \<open>2 ^ 8\<close>. The line \<^verbatim>\<open>ATE-1\<close> ends with the status \<^verbatim>\<open>OK\<close> and echo enabled.
\<close>

theorem mode_write_callbacks_negative_argument:
  assumes "sscanf_d a = Some v" and "v < 0" and "- (2 ^ 31) \<le> v"
  shows "parse_bit 1 [Some a] b = Inr (AT_SUCCESS, of_int v)
       \<and> echo_write_callback 1 [Some a] code s
           = Inr (AT_SUCCESS, 0, s\<lparr>flags := (flags s)\<lparr>echo := odd (v mod 2 ^ 8)\<rparr>\<rparr>, [])
       \<and> verbose_write_callback 1 [Some a] code s
           = Inr (AT_SUCCESS, 0, s\<lparr>flags := (flags s)\<lparr>verbose := odd (v mod 2 ^ 8)\<rparr>\<rparr>, [])
       \<and> quiet_write_callback 1 [Some a] code s
           = Inr (AT_SUCCESS, 0, s\<lparr>flags := (flags s)\<lparr>quiet := odd (v mod 2 ^ 8)\<rparr>\<rparr>, [])"
  using parse_bit_negative [OF assms, of 0] parse_bit_negative [OF assms, of b]
  by (simp add: echo_write_callback_def verbose_write_callback_def quiet_write_callback_def
      bit0_of_int)

theorem mode_write_callbacks_negative_argument_witness:
  "sscanf_d ''-1'' = Some (- 1) \<and> (- 1 :: int) < 0 \<and> - (2 ^ 31) \<le> (- 1 :: int)
   \<and> echo_write_callback 1 [Some ''-1''] 0 (idle_ctx False True False)
       = Inr (AT_SUCCESS, 0, idle_ctx False True True, [])
   \<and> AT_process example_env (line_ctx (idle_ctx False True False) ''ATE-1'')
       = Inr (AT_SUCCESS,
              (idle_ctx False True True)\<lparr>current_command := Some AT_COMMAND_ECHO_ref\<rparr>,
              [Command_status AT_SUCCESS 0, Write ''OK'', Write AT_REPLY_END])"
proof -
  have p: "sscanf_d ''-1'' = Some (- 1)"
    by (simp add: sscanf_d_def isspace_def isdigit_def decimal_value_def digit_value_def Let_def)
  have "echo_write_callback 1 [Some ''-1''] 0 (idle_ctx False True False)
          = Inr (AT_SUCCESS, 0, idle_ctx False True True, [])"
    using mode_write_callbacks_negative_argument [OF p, of 0 0 "idle_ctx False True False"]
    by (simp add: idle_ctx_def)
  moreover have "AT_process example_env (line_ctx (idle_ctx False True False) ''ATE-1'')
       = Inr (AT_SUCCESS,
              (idle_ctx False True True)\<lparr>current_command := Some AT_COMMAND_ECHO_ref\<rparr>,
              [Command_status AT_SUCCESS 0, Write ''OK'', Write AT_REPLY_END])"
    by (simp add: at_eval fun_eq_iff)
  ultimately show ?thesis using p by simp
qed

subsection \<open>The processing pass\<close>

lemma header_AT: "memcmp_eq buf 0 AT_HEADER 2 = Inr (buf 0 = CHR ''A'' \<and> buf 1 = CHR ''T'')"
proof -
  have "[0..<2] = [0, 1]" by (simp add: upt_conv_Cons)
  then show ?thesis by (auto simp: memcmp_eq_def)
qed

lemma status_lines_append [simp]: "status_lines (a @ b) = status_lines a @ status_lines b"
  by (induction a rule: status_lines.induct) simp_all

lemma written_append [simp]: "written (a @ b) = written a @ written b"
  by (induction a rule: written.induct) simp_all

lemma status_lines_Write [simp]: "status_lines (map Write out) = []"
  by (induction out) simp_all

lemma written_Write [simp]: "written (map Write out) = out"
  by (induction out) simp_all

lemma print_tab_reset [simp]:
  "print_tab env (s\<lparr>flags := (flags s)\<lparr>pending := p\<rparr>, rx_buffer := b, rx_buffer_size := z\<rparr>)
     = print_tab env s"
  by (simp add: print_tab_def fun_eq_iff)

lemma end_line_reset [simp]:
  "end_line env (s\<lparr>flags := (flags s)\<lparr>pending := p\<rparr>, rx_buffer := b, rx_buffer_size := z\<rparr>)
     = end_line env s"
  by (simp add: end_line_def)

lemma print_reset [simp]:
  "print env (s\<lparr>flags := (flags s)\<lparr>pending := p\<rparr>, rx_buffer := b, rx_buffer_size := z\<rparr>)
     = print env s"
  by (simp add: print_def fun_eq_iff)

lemma print_status_buffer_reset [simp]:
  "print_status_buffer env
     (s\<lparr>flags := (flags s)\<lparr>pending := p\<rparr>, rx_buffer := b, rx_buffer_size := z\<rparr>)
     = print_status_buffer env s"
  by (simp add: print_status_buffer_def fun_eq_iff split: sum.splits)

lemma command_status_text_reset [simp]:
  "command_status_text env
     (s\<lparr>flags := (flags s)\<lparr>pending := p\<rparr>, rx_buffer := b, rx_buffer_size := z\<rparr>)
     = command_status_text env s"
  by (simp add: command_status_text_def fun_eq_iff split: AT_status_t.splits)

lemma print_command_status_reset:
  "print_command_status env
     (s\<lparr>flags := (flags s)\<lparr>pending := p\<rparr>, rx_buffer := b, rx_buffer_size := z\<rparr>) st code
   = print_command_status env s st code"
  by (simp add: print_command_status_def split: sum.splits)

lemma map_cleared:
  "map (\<lambda>idx. if idx < AT_BUFFER_SIZE then NUL else f idx) [0..<AT_BUFFER_SIZE]
     = replicate AT_BUFFER_SIZE NUL"
  by (rule nth_equalityI) simp_all

lemma AT_process_errors_done:
  assumes "AT_process_errors env st code s out = Inr (status, s', events)"
  shows "line_cycle_done env status s' events"
proof -
  from assms obtain after where a: "print_command_status env s st code = Inr after"
    and r: "status = st"
      "s' = s\<lparr>flags := (flags s)\<lparr>pending := False\<rparr>,
               rx_buffer := (\<lambda>idx. if idx < AT_BUFFER_SIZE then NUL else rx_buffer s idx),
               rx_buffer_size := 0\<rparr>"
      "events = map Write out @ Command_status st code # map Write after"
    by (auto simp: AT_process_errors_def split: sum.splits)
  have "print_command_status env s' status code = Inr after"
    unfolding r by (simp add: print_command_status_reset a)
  then show ?thesis
    unfolding line_cycle_done_def using r map_cleared [of "rx_buffer s"] by auto
qed

lemma AT_process_command_done:
  assumes "AT_process_command env off t s out = Inr (status, s', events)"
  shows "line_cycle_done env status s' events"
  using assms
  by (auto simp: AT_process_command_def split: sum.splits dest: AT_process_errors_done)

lemma AT_process_help_done:
  assumes "AT_process_help env s out = Inr (status, s', events)"
  shows "line_cycle_done env status s' events"
  using assms
  by (auto simp: AT_process_help_def split: sum.splits if_splits dest: AT_process_errors_done)

text \<open>
  Every path of \<^verbatim>\<open>AT_process\<close> behind the test of \<^verbatim>\<open>process\<close> leads to the label
  \<^verbatim>\<open>errors\<close>: a pass that returns, whatever its status, has called
  \<^verbatim>\<open>_print_command_status\<close> exactly once, with the status it returns and after
  everything else it sent, has cleared \<^verbatim>\<open>pending\<close>, zeroed all 128 bytes of the buffer
  and set \<^verbatim>\<open>rx_buffer_size\<close> to zero.
\<close>

lemma AT_process_returned_line_cycle:
  assumes "process (flags s)" and "AT_process env s = Inr (status, s', events)"
  shows "line_cycle_done env status s' events"
  using assms
  by (auto simp: AT_process_def Let_def split: sum.splits if_splits bool.splits
      dest: AT_process_errors_done AT_process_command_done AT_process_help_done)

lemma AT_process_core_error_example:
  "AT_process example_env (line_ctx (example_idle_ctx False True False) ''AT!RST'')
     = Inr (AT_ERROR_EXTERNAL_COMMAND_CORE_ERROR,
            (example_idle_ctx False True False)\<lparr>current_command := Some (User_command 1)\<rparr>,
            [Command_status AT_ERROR_EXTERNAL_COMMAND_CORE_ERROR 5,
             Write ''ERROR:'', Write ''COMMAND_CORE_ERROR:0x05'', Write AT_REPLY_END])"
  by (simp add: at_eval fun_eq_iff)

lemma print_dec_length: "0 < k \<Longrightarrow> n < 10 ^ k \<Longrightarrow> length (print_dec n) \<le> k"
proof (induction k arbitrary: n)
  case 0
  then show ?case by simp
next
  case (Suc k)
  show ?case
  proof (cases "n < 10")
    case True
    then show ?thesis by (simp add: print_dec.simps)
  next
    case False
    with Suc.prems have k: "0 < k" by (cases k) simp_all
    have "n div 10 < 10 ^ k" using Suc.prems by (simp add: less_mult_imp_div_less mult.commute)
    from Suc.IH [OF k this] False show ?thesis by (subst print_dec.simps) simp
  qed
qed

lemma format_ld_length: "length (format_ld m v) \<le> 11"
proof (cases m)
  case ILP32
  have "sint v < 2 ^ 31" "- (2 ^ 31) \<le> sint v"
    using sint_lt [of v] sint_ge [of v] by simp_all
  then have "nat (sint v) < 10 ^ 10" "nat (- sint v) < 10 ^ 10" by simp_all
  then have "length (print_dec (nat (sint v))) \<le> 10" "length (print_dec (nat (- sint v))) \<le> 10"
    by (simp_all add: print_dec_length)
  then show ?thesis using ILP32 by (simp add: format_ld_def format_d_def)
next
  case LP64
  have "unat v < 2 ^ 32" using unsigned_less [of v] by simp
  then have "unat v < 10 ^ 10" by simp
  then have "length (print_dec (unat v)) \<le> 10" by (simp add: print_dec_length)
  then show ?thesis using LP64 by (simp add: format_ld_def)
qed

lemma status_value_length: "length (format_d (int (status_value st))) \<le> 2"
proof -
  have "status_value st < 10 ^ 2" by (cases st) simp_all
  then have "length (print_dec (status_value st)) \<le> 2" by (simp add: print_dec_length)
  then show ?thesis by (simp add: format_d_def)
qed

lemma print_returns: "\<exists>st out. print env s text = Inr (st, out)"
  by (simp add: print_def print_tab_def strlen_def)

lemma end_line_returns: "\<exists>st out. end_line env s = Inr (st, out)"
  by (simp add: end_line_def print_tab_def)

lemma print_line_returns: "\<exists>st out. print_line env s line = Inr (st, out)"
proof -
  obtain st1 o1 where a: "print env s line = Inr (st1, o1)" using print_returns by blast
  obtain st2 o2 where b: "end_line env s = Inr (st2, o2)" using end_line_returns by blast
  show ?thesis by (simp add: print_line_def a b)
qed

lemma AT_process_echo_returns:
  "buffer_string (rx_buffer s) 0 = Inr line \<Longrightarrow> \<exists>out. AT_process_echo env s = Inr out"
  using print_line_returns [of env s line] by (auto simp: AT_process_echo_def)

lemma print_status_buffer_returns:
  "length text < AT_BUFFER_SIZE \<Longrightarrow> \<exists>out. print_status_buffer env s header text = Inr out"
  using end_line_returns [of env s]
  by (auto simp: print_status_buffer_def print_tab_def snprintf_tx_buffer_def)

lemma command_status_text_returns:
  assumes "at_status \<noteq> AT_ERROR_EXTERNAL_COMMAND_CORE_ERROR"
  shows "\<exists>text. command_status_text env s at_status error_code = Inr text
           \<and> length text < AT_BUFFER_SIZE"
  using assms format_ld_length [of "target env" error_code] status_value_length [of at_status]
  by (cases at_status) (simp_all add: command_status_text_def)

text \<open>
  \<^verbatim>\<open>_print_command_status\<close> returns for every status but a core error in verbose mode,
  where it goes through \<^verbatim>\<open>current_command\<close> and the translator of the command.
\<close>

lemma print_command_status_returns:
  assumes "at_status \<noteq> AT_ERROR_EXTERNAL_COMMAND_CORE_ERROR \<or> \<not> verbose (flags s)"
  shows "\<exists>out. print_command_status env s at_status error_code = Inr out"
proof (cases "verbose (flags s)")
  case False
  with status_value_length [of at_status]
    print_status_buffer_returns [of "format_d (int (status_value at_status))" env s "[]"]
  show ?thesis by (simp add: print_command_status_def)
next
  case True
  with assms have ne: "at_status \<noteq> AT_ERROR_EXTERNAL_COMMAND_CORE_ERROR" by simp
  from command_status_text_returns [OF ne, of env s error_code]
  obtain body where t: "command_status_text env s at_status error_code = Inr body"
    and l: "length body < AT_BUFFER_SIZE" by blast
  obtain st1 h1 where p1: "print env s ''OK'' = Inr (st1, h1)"
    using print_returns by blast
  obtain st2 h2 where p2: "print env s ''ERROR:'' = Inr (st2, h2)"
    using print_returns by blast
  from print_status_buffer_returns [of "[]" env s h1] print_status_buffer_returns [OF l, of env s h2]
  show ?thesis using True by (auto simp: print_command_status_def p1 p2 t)
qed


text \<open>
  The code \<open>-1\<close> behind a parameter error, in verbose mode: printed as it is where
  \<^verbatim>\<open>int32_t\<close> is \<^verbatim>\<open>long\<close>, and as \<^verbatim>\<open>4294967295\<close> by the LP64 build.
\<close>

lemma print_command_status_negative_code:
  "print_command_status (example_env\<lparr>target := ILP32\<rparr>) (idle_ctx False True False)
     AT_ERROR_EXTERNAL_COMMAND_BAD_PARAMETER_VALUE (- 1)
     = Inr [''ERROR:'', ''COMMAND_BAD_PARAMETER_VALUE:-1'', AT_REPLY_END]"
  "print_command_status (example_env\<lparr>target := LP64\<rparr>) (idle_ctx False True False)
     AT_ERROR_EXTERNAL_COMMAND_BAD_PARAMETER_VALUE (- 1)
     = Inr [''ERROR:'', ''COMMAND_BAD_PARAMETER_VALUE:4294967295'', AT_REPLY_END]"
  by (simp_all add: at_eval unsigned_minus_1_eq_mask mask_eq_exp_minus_1)

text \<open>
  The code from the label \<^verbatim>\<open>errors\<close> on always ends the line cycle, when the status
  line can be printed.
\<close>

lemma AT_process_errors_completes:
  assumes "st \<noteq> AT_ERROR_EXTERNAL_COMMAND_CORE_ERROR \<or> \<not> verbose (flags s)"
  shows "\<exists>s' events. AT_process_errors env st code s out = Inr (st, s', events)
           \<and> line_cycle_done env st s' events"
proof -
  from print_command_status_returns [OF assms]
  obtain after where "print_command_status env s st code = Inr after" by blast
  then have "AT_process_errors env st code s out =
      Inr (st,
           s\<lparr>flags := (flags s)\<lparr>pending := False\<rparr>,
             rx_buffer := (\<lambda>idx. if idx < AT_BUFFER_SIZE then NUL else rx_buffer s idx),
             rx_buffer_size := 0\<rparr>,
           map Write out @ Command_status st code # map Write after)"
    by (simp add: AT_process_errors_def)
  then show ?thesis using AT_process_errors_done by blast
qed

text \<open>
  A line without the header is a parsing error and the line \<^verbatim>\<open>AT\<close> a success; both
  end the line cycle. The echo reads the line as a string, so the line has to end inside
  the buffer.
\<close>

lemma AT_process_completes_without_command:
  assumes p: "process (flags s)"
    and line: "buffer_string (rx_buffer s) 0 = Inr line"
    and no_command: "\<not> (rx_buffer s 0 = CHR ''A'' \<and> rx_buffer s 1 = CHR ''T'')
                     \<or> rx_buffer s 2 = AT_COMMAND_MARKER_EXECUTION"
  shows "\<exists>s' events.
           AT_process env s =
             Inr (if rx_buffer s 0 = CHR ''A'' \<and> rx_buffer s 1 = CHR ''T''
                  then AT_SUCCESS else AT_ERROR_INTERNAL_COMMAND_PARSING, s', events)
           \<and> line_cycle_done env
                (if rx_buffer s 0 = CHR ''A'' \<and> rx_buffer s 1 = CHR ''T''
                 then AT_SUCCESS else AT_ERROR_INTERNAL_COMMAND_PARSING) s' events"
proof -
  define s1 where "s1 = s\<lparr>flags := (flags s)\<lparr>process := False\<rparr>\<rparr>"
  have "buffer_string (rx_buffer s1) 0 = Inr line" using line by (simp add: s1_def)
  from AT_process_echo_returns [OF this]
  obtain echoed where e: "AT_process_echo env s1 = Inr echoed" by blast
  show ?thesis
  proof (cases "rx_buffer s 0 = CHR ''A'' \<and> rx_buffer s 1 = CHR ''T''")
    case True
    with no_command have ping: "rx_buffer s 2 = AT_COMMAND_MARKER_EXECUTION" by simp
    from AT_process_errors_completes [of AT_SUCCESS s1 env 0 echoed]
    obtain s' events where "AT_process_errors env AT_SUCCESS 0 s1 echoed = Inr (AT_SUCCESS, s', events)"
      and "line_cycle_done env AT_SUCCESS s' events" by auto
    then show ?thesis
      using p True ping e
      by (simp add: AT_process_def Let_def s1_def [symmetric] header_AT) (simp add: s1_def)
  next
    case False
    from AT_process_errors_completes [of AT_ERROR_INTERNAL_COMMAND_PARSING s1 env 0 echoed]
    obtain s' events where
      "AT_process_errors env AT_ERROR_INTERNAL_COMMAND_PARSING 0 s1 echoed
         = Inr (AT_ERROR_INTERNAL_COMMAND_PARSING, s', events)"
      and "line_cycle_done env AT_ERROR_INTERNAL_COMMAND_PARSING s' events" by auto
    then show ?thesis
      using p False e
      by (simp add: AT_process_def Let_def s1_def [symmetric] header_AT) (auto simp: s1_def)
  qed
qed

text \<open>
  A line handed to \<^verbatim>\<open>_parse_and_execute_command\<close> ends the line cycle with the status
  of that function, whatever it is (success, command not found, an error of the callback),
  as soon as the function returns.
\<close>

lemma AT_process_completes_after_dispatch:
  assumes d: "dispatches s"
    and line: "buffer_string (rx_buffer s) 0 = Inr line"
    and t: "t = (if rx_buffer s 2 = AT_COMMAND_HEADER_EXTENDED then AT_COMMAND_TYPE_EXTENDED
                 else if rx_buffer s 2 = AT_COMMAND_HEADER_DEBUG then AT_COMMAND_TYPE_DEBUG
                 else AT_COMMAND_TYPE_BASIC)"
    and r: "parse_and_execute_command env (if t = AT_COMMAND_TYPE_BASIC then 2 else 3) t 0
              (s\<lparr>flags := (flags s)\<lparr>process := False\<rparr>\<rparr>) = Inr (status, code, s2, out)"
    and printable: "status \<noteq> AT_ERROR_EXTERNAL_COMMAND_CORE_ERROR \<or> \<not> verbose (flags s2)"
  shows "\<exists>s' events. AT_process env s = Inr (status, s', events)
           \<and> line_cycle_done env status s' events"
proof -
  define s1 where "s1 = s\<lparr>flags := (flags s)\<lparr>process := False\<rparr>\<rparr>"
  have "buffer_string (rx_buffer s1) 0 = Inr line" using line by (simp add: s1_def)
  from AT_process_echo_returns [OF this]
  obtain echoed where e: "AT_process_echo env s1 = Inr echoed" by blast
  from AT_process_errors_completes [OF printable, of env code "echoed @ out"]
  obtain s' events where
    fin: "AT_process_errors env status code s2 (echoed @ out) = Inr (status, s', events)"
      "line_cycle_done env status s' events" by auto
  have c: "AT_process_command env (if t = AT_COMMAND_TYPE_BASIC then 2 else 3) t s1 echoed
             = Inr (status, s', events)"
    using r fin(1) by (simp add: AT_process_command_def s1_def)
  have "AT_process env s
          = AT_process_command env (if t = AT_COMMAND_TYPE_BASIC then 2 else 3) t s1 echoed"
    using d e unfolding t
    by (simp add: AT_process_def dispatches_def Let_def s1_def [symmetric] header_AT)
       (simp add: s1_def)
  with c fin(2) show ?thesis by simp
qed

text \<open>
  C2. The line \<^verbatim>\<open>ATE,\<close> does not end its line cycle. The separator gives the write
  callback of \<^verbatim>\<open>E\<close> one parameter, which is null; \<^verbatim>\<open>_parse_bit\<close> hands it to
  \<^verbatim>\<open>sscanf\<close> without a test, and the pass ends there, in a read through the null
  pointer, before the label \<^verbatim>\<open>errors\<close>: no status line, \<^verbatim>\<open>pending\<close> still set, the
  buffer not cleared.
\<close>

theorem AT_process_omitted_argument_fault:
  "deliver_bytes (''ATE,'' @ [AT_COMMAND_MARKER_END]) (idle_ctx False True False)
     = Inr (line_ctx (idle_ctx False True False) ''ATE,'', 1)
   \<and> process (flags (line_ctx (idle_ctx False True False) ''ATE,''))
   \<and> first_match example_env (line_ctx (idle_ctx False True False) ''ATE,'')
         AT_COMMAND_TYPE_BASIC ''E,'' = Some AT_COMMAND_ECHO_ref
   \<and> parse_parameters '','' = Inr [None]
   \<and> parse_bit 1 [None] 0 = Inl NullDereference
   \<and> AT_process example_env (line_ctx (idle_ctx False True False) ''ATE,'')
       = Inl NullDereference"
proof -
  let ?s = "line_ctx (idle_ctx False True False) ''ATE,''"
  have d: "deliver_bytes (''ATE,'' @ [AT_COMMAND_MARKER_END]) (idle_ctx False True False)
     = Inr (?s, 1)"
    using deliver_example_line(2)
      [where t = "''ATE,''" and q = False and v = True and e = False and c = None]
    by (simp add: idle_ctx_def)
  have p: "process (flags ?s)" by (simp add: line_ctx_def)
  have fm: "first_match example_env ?s AT_COMMAND_TYPE_BASIC ''E,'' = Some AT_COMMAND_ECHO_ref"
    by (simp add: first_match_def registered_commands_def upt_0_64 line_ctx_def idle_ctx_def
        AT_COMMAND_ECHO_def c_str_def)
  have pp: "parse_parameters '','' = Inr [None]"
    by (simp add: parse_parameters_def parse_parameters_loop.simps strtok_r_def)
  have pb: "parse_bit 1 [None] 0 = Inl NullDereference" by (simp add: parse_bit_def)
  have run: "AT_process example_env ?s = Inl NullDereference"
    by (simp add: at_eval fun_eq_iff)
  from d p fm pp pb run show ?thesis by (simp only: simp_thms)
qed

subsection \<open>Quiet mode\<close>

lemma silent_when_quiet_execution:
  "silent_when_quiet cmd \<Longrightarrow> execution_callback cmd = Some cb \<Longrightarrow> quiet (flags s) \<Longrightarrow>
   cb code s = Inr (st, code', s', out) \<Longrightarrow> out = []"
  unfolding silent_when_quiet_def by meson

lemma silent_when_quiet_read:
  "silent_when_quiet cmd \<Longrightarrow> read_callback cmd = Some cb \<Longrightarrow> quiet (flags s) \<Longrightarrow>
   cb code s = Inr (st, code', s', out) \<Longrightarrow> out = []"
  unfolding silent_when_quiet_def by meson

lemma silent_when_quiet_write:
  "silent_when_quiet cmd \<Longrightarrow> write_callback cmd = Some cb \<Longrightarrow> quiet (flags s) \<Longrightarrow>
   cb argc argv code s = Inr (st, code', s', out) \<Longrightarrow> out = []"
  unfolding silent_when_quiet_def by meson

lemma print_tab_quiet: "quiet (flags s) \<Longrightarrow> print_tab env s tab n = Inr (AT_SUCCESS, [])"
  by (simp add: print_tab_def)

lemma print_quiet: "quiet (flags s) \<Longrightarrow> print env s text = Inr (AT_SUCCESS, [])"
  by (simp add: print_def print_tab_quiet)

lemma end_line_quiet: "quiet (flags s) \<Longrightarrow> end_line env s = Inr (AT_SUCCESS, [])"
  by (simp add: end_line_def print_tab_quiet)

lemma print_line_quiet: "quiet (flags s) \<Longrightarrow> print_line env s text = Inr (AT_SUCCESS, [])"
  by (simp add: print_line_def print_quiet end_line_quiet)

lemma silent_simps [simp]: "silent (Inl f)" "silent (Inr (st, out)) = (out = [])"
  by (simp_all add: silent_def)

lemma print_steps_silent:
  "list_all silent steps \<Longrightarrow> silent (print_steps steps)"
  by (induction steps) (auto split: sum.splits)

lemma print_ptr_quiet: "quiet (flags s) \<Longrightarrow> silent (print_ptr env s text)"
  by (simp add: print_ptr_def print_quiet split: option.splits)

lemma print_line_ptr_quiet: "quiet (flags s) \<Longrightarrow> silent (print_line_ptr env s text)"
  by (simp add: print_line_ptr_def print_line_quiet split: option.splits)

lemma print_command_header_quiet: "quiet (flags s) \<Longrightarrow> silent (print_command_header env s t)"
  by (simp add: print_command_header_def print_quiet)

lemma print_help_command_quiet:
  "quiet (flags s) \<Longrightarrow> silent (print_help_command env s t cmd)"
  unfolding print_help_command_def
  by (rule print_steps_silent)
     (simp add: print_quiet print_ptr_quiet print_line_ptr_quiet print_command_header_quiet
        split: option.splits)

lemma print_help_quiet: "quiet (flags s) \<Longrightarrow> silent (print_help env s t)"
  unfolding print_help_def
  by (auto simp: print_line_quiet list_all_iff print_help_command_quiet
      intro!: print_steps_silent split: option.splits)

lemma AT_send_reply_quiet: "quiet (flags s) \<Longrightarrow> silent (AT_send_reply env command reply s)"
  unfolding AT_send_reply_def
  by (auto simp: print_quiet end_line_quiet print_command_header_quiet
      simp del: print_steps.simps intro!: print_steps_silent split: option.splits)

lemma print_command_status_quiet:
  "quiet (flags s) \<Longrightarrow> print_command_status env s st code = Inr out \<Longrightarrow> out = []"
  by (auto simp: print_command_status_def print_status_buffer_def print_quiet print_tab_quiet
      end_line_quiet split: if_splits sum.splits)

lemma AT_process_errors_quiet:
  assumes "AT_process_errors env st code s out = Inr (status, s', events)"
    and "quiet (flags s')"
  shows "written events = out"
proof -
  from assms(1) obtain after where a: "print_command_status env s st code = Inr after"
    and r: "s' = s\<lparr>flags := (flags s)\<lparr>pending := False\<rparr>,
               rx_buffer := (\<lambda>idx. if idx < AT_BUFFER_SIZE then NUL else rx_buffer s idx),
               rx_buffer_size := 0\<rparr>"
      "events = map Write out @ Command_status st code # map Write after"
    by (auto simp: AT_process_errors_def split: sum.splits)
  from assms(2) r(1) have "quiet (flags s)" by simp
  then have "after = []" using a by (rule print_command_status_quiet)
  with r(2) show ?thesis by simp
qed

lemma search_command_registered:
  "search_command env s off t idxs = Inr (Some (cmd, n)) \<Longrightarrow>
   cmd \<in> set (List.map_filter (commands_list s) idxs)"
  by (induction idxs) (auto split: option.splits if_splits sum.splits bool.splits)

lemma execute_command_quiet:
  assumes "quiet (flags s)" and "silent_when_quiet (command_at env cmd)"
    and "execute_command env off t code cmd n s = Inr (st, code', s', out)"
  shows "out = []"
proof -
  note e = silent_when_quiet_execution [OF assms(2)]
  note r = silent_when_quiet_read [OF assms(2)]
  note w = silent_when_quiet_write [OF assms(2)]
  show ?thesis
    using assms(1,3)
    unfolding execute_command_def
    by (auto split: if_splits option.splits sum.splits dest: e r w)
qed

lemma parse_and_execute_command_quiet:
  assumes q: "quiet (flags s)"
    and k: "\<forall>cmd\<in>set (registered_commands s). silent_when_quiet (command_at env cmd)"
    and run: "parse_and_execute_command env off t code s = Inr (st, code', s', out)"
  shows "out = []"
proof (cases "search_command env (s\<lparr>current_command := None\<rparr>) off t [0..<AT_COMMAND_LIST_SIZE]")
  case (Inl f)
  with run show ?thesis by (simp add: parse_and_execute_command_def)
next
  case (Inr found)
  show ?thesis
  proof (cases found)
    case None
    with Inr run q show ?thesis by (auto simp: parse_and_execute_command_def)
  next
    case (Some p)
    obtain cmd n where p: "p = (cmd, n)" by (cases p)
    from search_command_registered [of env "s\<lparr>current_command := None\<rparr>" off t _ cmd n]
      Inr Some p
    have "cmd \<in> set (registered_commands s)" by (simp add: registered_commands_def)
    with k have kq: "silent_when_quiet (command_at env cmd)" by blast
    from run Inr Some p
    have "execute_command env off t code cmd n (s\<lparr>current_command := Some cmd\<rparr>)
            = Inr (st, code', s', out)"
      by (simp add: parse_and_execute_command_def)
    from execute_command_quiet [OF _ kq this] q show ?thesis by simp
  qed
qed

lemma AT_process_command_quiet:
  assumes q: "quiet (flags s)"
    and k: "\<forall>cmd\<in>set (registered_commands s). silent_when_quiet (command_at env cmd)"
    and run: "AT_process_command env off t s out = Inr (status, s', events)"
    and q': "quiet (flags s')"
  shows "written events = out"
proof -
  from run obtain st code s2 out2 where
    p: "parse_and_execute_command env off t 0 s = Inr (st, code, s2, out2)"
    and e: "AT_process_errors env st code s2 (out @ out2) = Inr (status, s', events)"
    by (auto simp: AT_process_command_def split: sum.splits)
  from parse_and_execute_command_quiet [OF q k p] have "out2 = []" .
  with AT_process_errors_quiet [OF e q'] show ?thesis by simp
qed

lemma AT_process_help_quiet:
  assumes q: "quiet (flags s)"
    and run: "AT_process_help env s out = Inr (status, s', events)"
    and q': "quiet (flags s')"
  shows "written events = out"
proof -
  have "silent (print_steps
                [print_line env s ''Basic commands'',
                 print_help env s AT_COMMAND_TYPE_BASIC,
                 print_line env s ''Extended commands'',
                 print_help env s AT_COMMAND_TYPE_EXTENDED,
                 print_line env s ''Debug commands'',
                 print_help env s AT_COMMAND_TYPE_DEBUG])"
    using q by (intro print_steps_silent) (simp add: print_line_quiet print_help_quiet)
  then show ?thesis
    using run q'
    by (auto simp: AT_process_help_def split: if_splits sum.splits
        dest!: AT_process_errors_quiet)
qed

lemma AT_process_echo_quiet:
  "quiet (flags s) \<Longrightarrow> AT_process_echo env s = Inr out \<Longrightarrow> out = []"
  by (auto simp: AT_process_echo_def print_line_quiet split: if_splits sum.splits)

lemma builtin_commands_silent:
  "silent_when_quiet AT_COMMAND_ECHO" "silent_when_quiet AT_COMMAND_VERBOSE"
  "silent_when_quiet AT_COMMAND_QUIET"
  by (auto simp: silent_when_quiet_def AT_COMMAND_ECHO_def AT_COMMAND_VERBOSE_def
      AT_COMMAND_QUIET_def echo_execution_callback_def echo_write_callback_def
      verbose_execution_callback_def verbose_write_callback_def
      quiet_execution_callback_def quiet_write_callback_def
      split: sum.splits if_splits)

lemma example_commands_silent: "silent_when_quiet (example_command a)"
  by (auto simp: silent_when_quiet_def example_command_def example_id_read_callback_def
      example_rst_execution_callback_def print_line_quiet split: sum.splits if_splits)

text \<open>
  C3, as the code has it. The quiet flag is tested at each write, so a line that clears
  it is answered: quiet mode on, the line \<^verbatim>\<open>ATQ\<close> gets its status line \<^verbatim>\<open>OK\<close>.
\<close>

theorem quiet_mode_status_line_counterexample:
  "quiet (flags (line_ctx (idle_ctx True True False) ''ATQ''))
   \<and> AT_process example_env (line_ctx (idle_ctx True True False) ''ATQ'')
       = Inr (AT_SUCCESS,
              (idle_ctx False True False)\<lparr>current_command := Some AT_COMMAND_QUIET_ref\<rparr>,
              [Command_status AT_SUCCESS 0, Write ''OK'', Write AT_REPLY_END])
   \<and> written [Command_status AT_SUCCESS 0, Write ''OK'', Write AT_REPLY_END]
       = [''OK'', AT_REPLY_END]"
  by (simp add: at_eval fun_eq_iff)

text \<open>
  C3, amended. With the quiet flag set, \<^verbatim>\<open>_print_tab\<close> writes nothing, and so do a
  reply, the help and the status line. A processing pass that starts with the flag set
  and ends with it still set has written nothing at all (no echo, no reply, no help line,
  no status line), provided the callbacks of the registered commands send nothing
  themselves while the flag is set.
\<close>

theorem quiet_mode_suppresses_output:
  assumes q: "quiet (flags s)"
  shows "print_tab env s tab tab_size = Inr (AT_SUCCESS, [])
     \<and> silent (AT_send_reply env command reply s)
     \<and> silent (print_help env s t)
     \<and> (\<forall>st code out. print_command_status env s st code = Inr out \<longrightarrow> out = [])
     \<and> (\<forall>status s' events.
           (\<forall>cmd\<in>set (registered_commands s). silent_when_quiet (command_at env cmd)) \<longrightarrow>
           AT_process env s = Inr (status, s', events) \<longrightarrow> quiet (flags s') \<longrightarrow>
           written events = [])"
proof -
  have "written events = []"
    if k: "\<forall>cmd\<in>set (registered_commands s). silent_when_quiet (command_at env cmd)"
      and run: "AT_process env s = Inr (status, s', events)"
      and q': "quiet (flags s')" for status s' events
  proof (cases "process (flags s)")
    case False
    with run q show ?thesis by (auto simp: AT_process_def)
  next
    case True
    define s1 where "s1 = s\<lparr>flags := (flags s)\<lparr>process := False\<rparr>\<rparr>"
    have q1: "quiet (flags s1)" using q by (simp add: s1_def)
    have k1: "\<forall>cmd\<in>set (registered_commands s1). silent_when_quiet (command_at env cmd)"
      using k by (simp add: s1_def registered_commands_def)
    from run True obtain out where e: "AT_process_echo env s1 = Inr out"
      by (auto simp: AT_process_def s1_def Let_def split: sum.splits)
    with q1 have o: "out = []" by (rule AT_process_echo_quiet)
    from run True e o q' show ?thesis
      unfolding AT_process_def Let_def s1_def [symmetric]
      by (auto split: sum.splits if_splits bool.splits
          dest: AT_process_errors_quiet AT_process_command_quiet [OF q1 k1]
            AT_process_help_quiet [OF q1])
  qed
  then have pass: "\<forall>status s' events.
           (\<forall>cmd\<in>set (registered_commands s). silent_when_quiet (command_at env cmd)) \<longrightarrow>
           AT_process env s = Inr (status, s', events) \<longrightarrow> quiet (flags s') \<longrightarrow>
           written events = []"
    by blast
  have st: "\<forall>st code out. print_command_status env s st code = Inr out \<longrightarrow> out = []"
    using print_command_status_quiet [OF q] by blast
  from q pass st show ?thesis
    by (simp only: print_tab_quiet AT_send_reply_quiet print_help_quiet simp_thms)
qed

theorem quiet_mode_suppresses_output_witness:
  "quiet (flags (line_ctx (example_idle_ctx True True True) ''AT$ID?''))
   \<and> AT_process example_env (line_ctx (example_idle_ctx True True True) ''AT$ID?'')
       = Inr (AT_SUCCESS,
              (example_idle_ctx True True True)\<lparr>current_command := Some (User_command 0)\<rparr>,
              [Command_status AT_SUCCESS 0])
   \<and> quiet (flags ((example_idle_ctx True True True)\<lparr>current_command := Some (User_command 0)\<rparr>))
   \<and> written [Command_status AT_SUCCESS 0] = []"
proof -
  let ?s = "line_ctx (example_idle_ctx True True True) ''AT$ID?''"
  have q: "quiet (flags ?s)" by (simp add: line_ctx_def example_idle_ctx_def idle_ctx_def)
  have k: "\<forall>cmd\<in>set (registered_commands ?s). silent_when_quiet (command_at example_env cmd)"
    by (simp add: registered_commands_example builtin_commands_silent example_commands_silent
        example_env_def)
  have run: "AT_process example_env ?s
       = Inr (AT_SUCCESS,
              (example_idle_ctx True True True)\<lparr>current_command := Some (User_command 0)\<rparr>,
              [Command_status AT_SUCCESS 0])"
    by (simp add: at_eval fun_eq_iff)
  have q': "quiet (flags ((example_idle_ctx True True True)
                            \<lparr>current_command := Some (User_command 0)\<rparr>))"
    by (simp add: example_idle_ctx_def idle_ctx_def)
  from quiet_mode_suppresses_output [OF q, of example_env] k run q'
  have "written [Command_status AT_SUCCESS 0] = []" by blast
  with q run q' show ?thesis by blast
qed

subsection \<open>Processing the same line twice\<close>



lemma print_tab_current_command [simp]:
  "print_tab env (s\<lparr>current_command := c\<rparr>) = print_tab env s"
  by (simp add: print_tab_def fun_eq_iff)

lemma print_line_current_command [simp]:
  "print_line env (s\<lparr>current_command := c\<rparr>) = print_line env s"
  by (simp add: print_line_def print_def end_line_def fun_eq_iff)

lemma AT_process_echo_current_command [simp]:
  "AT_process_echo env (s\<lparr>current_command := c\<rparr>) = AT_process_echo env s"
  by (simp add: AT_process_echo_def split: sum.splits)

lemma parse_and_execute_command_current_command [simp]:
  "parse_and_execute_command env off t code (s\<lparr>current_command := c\<rparr>)
     = parse_and_execute_command env off t code s"
  by (simp add: parse_and_execute_command_def split: sum.splits option.splits)



lemma with_mode_flags_same [simp]: "with_mode_flags (mode_flags s) s = s"
  by (simp add: with_mode_flags_def mode_flags_def)

lemma mode_flags_with [simp]: "mode_flags (with_mode_flags m s) = m"
  by (simp add: with_mode_flags_def mode_flags_def)

lemma with_mode_flags_fields [simp]:
  "rx_buffer (with_mode_flags m s) = rx_buffer s"
  "rx_buffer_size (with_mode_flags m s) = rx_buffer_size s"
  "commands_list (with_mode_flags m s) = commands_list s"
  "commands_count (with_mode_flags m s) = commands_count s"
  "current_command (with_mode_flags m s) = current_command s"
  "process_callback (with_mode_flags m s) = process_callback s"
  "process (flags (with_mode_flags m s)) = process (flags s)"
  "pending (flags (with_mode_flags m s)) = pending (flags s)"
  by (simp_all add: with_mode_flags_def)


lemma with_mode_flags_process:
  "(with_mode_flags m s)\<lparr>flags := (flags (with_mode_flags m s))\<lparr>process := p\<rparr>\<rparr>
     = with_mode_flags m (s\<lparr>flags := (flags s)\<lparr>process := p\<rparr>\<rparr>)"
  by (simp add: with_mode_flags_def)





lemma search_command_mode_flags [simp]:
  "search_command env (with_mode_flags m s) off t idxs = search_command env s off t idxs"
  by (induction idxs) (simp_all split: option.splits sum.splits bool.splits)

lemma print_tab_process [simp]:
  "print_tab env (s\<lparr>flags := (flags s)\<lparr>process := p\<rparr>\<rparr>) = print_tab env s"
  by (simp add: print_tab_def fun_eq_iff)

lemma AT_process_echo_process [simp]:
  "AT_process_echo env (s\<lparr>flags := (flags s)\<lparr>process := p\<rparr>\<rparr>) = AT_process_echo env s"
  by (simp add: AT_process_echo_def print_line_def print_def end_line_def split: sum.splits)























end
